theory Spec2Isabelle
  imports Complex_Main "HOL-Library.Word"
begin

unbundle bit_operations_syntax

section \<open>Shared scalar types\<close>

text \<open>
  \<open>int32_t\<close>, \<open>uint32_t\<close> and \<open>SkFixed\<close> are 32-bit words (signed reads go through
  \<open>sint\<close>).  \<open>size_t\<close> is a word whose width \<open>'w\<close> is left open, since the sources
  are compiled for 32-bit and for 64-bit targets; the records below take the type
  \<open>'s\<close> of sizes as a parameter, which every function instantiates to \<open>'w word\<close>.
\<close>

type_synonym int32 = "32 word"
type_synonym uint32 = "32 word"

record SkIRect =
  fLeft :: int32
  fTop :: int32
  fRight :: int32
  fBottom :: int32

type_synonym SkIPoint = "int32 \<times> int32"

text \<open>
  \<open>SkScalar\<close> is a float.  Nothing below does float arithmetic; what matters is which
  values are finite, so a scalar is a rational or one of the three non-finite values.
\<close>

datatype SkScalar = Finite rat | PosInfinity | NegInfinity | NaN

type_synonym SkPoint = "SkScalar \<times> SkScalar"

record SkRect =
  rLeft :: SkScalar
  rTop :: SkScalar
  rRight :: SkScalar
  rBottom :: SkScalar

text \<open>\<open>SkMatrix\<close>: the nine entries of \<open>fMat\<close>.\<close>

type_synonym SkMatrix = "SkScalar list"

section \<open>SkImageFilter.cpp: the filter cache (CacheImpl)\<close>

text \<open>
  \<open>SkSpecialImage\<close> as far as the cache and \<open>filterImage\<close> read it: \<open>uniqueID()\<close>,
  \<open>subset()\<close> and \<open>getSize()\<close>.
\<close>

record 's SkSpecialImage =
  uniqueID :: uint32
  subset :: SkIRect
  getSize :: 's

text \<open>
  \<open>CacheImpl::Value\<close>, for the entries made by \<open>set(key, SkSpecialImage*, offset)\<close>.
  The entries of the deprecated \<open>set(key, SkBitmap, offset)\<close>, which carry a bitmap and a
  null \<open>fImage\<close>, are not modelled: on such an entry \<open>get(key, offset)\<close> writes
  \<open>*offset\<close>, moves the entry to the head and returns \<open>nullptr\<close>.
\<close>

record ('k, 's) Value =
  fKey :: 'k
  fImage :: "'s SkSpecialImage"
  fOffset :: SkIPoint

text \<open>
  \<open>CacheImpl\<close>.  \<open>fLRU\<close> is the intrusive list, head (most recently used) first.  The
  hash table \<open>fLookup\<close> holds the same \<open>Value\<close>s under their keys, at most one per key, so
  \<open>fLookup.find(key)\<close> is the search of \<open>fLRU\<close> for the key and a \<open>Value*\<close> is identified
  by its key.
\<close>

record ('k, 's) CacheImpl =
  fLRU :: "('k, 's) Value list"
  fMaxBytes :: 's
  fCurrentBytes :: 's

definition Create :: "'w::len word \<Rightarrow> ('k, 'w word) CacheImpl" where
  "Create maxBytes = \<lparr>fLRU = [], fMaxBytes = maxBytes, fCurrentBytes = 0\<rparr>"

definition lookup_find :: "('k, 'w::len word) CacheImpl \<Rightarrow> 'k \<Rightarrow> ('k, 'w word) Value option" where
  "lookup_find c key = find (\<lambda>e. fKey e = key) (fLRU c)"

text \<open>\<open>removeInternal(v)\<close>: subtract the entry's size, unlink it from the list and the table.\<close>

definition removeInternal :: "('k, 'w::len word) CacheImpl \<Rightarrow> ('k, 'w word) Value \<Rightarrow> ('k, 'w word) CacheImpl" where
  "removeInternal c v =
     c\<lparr>fCurrentBytes := fCurrentBytes c - getSize (fImage v),
       fLRU := filter (\<lambda>e. fKey e \<noteq> fKey v) (fLRU c)\<rparr>"

text \<open>\<open>get(key, offset)\<close>: on a hit the entry moves to the head unless it is the head.\<close>

definition get :: "('k, 'w::len word) CacheImpl \<Rightarrow> 'k \<Rightarrow>
    ('w word SkSpecialImage \<times> SkIPoint) option \<times> ('k, 'w word) CacheImpl" where
  "get c key =
     (case lookup_find c key of
        Some v \<Rightarrow>
          (Some (fImage v, fOffset v),
           if fKey (hd (fLRU c)) \<noteq> key
           then c\<lparr>fLRU := v # filter (\<lambda>e. fKey e \<noteq> fKey v) (fLRU c)\<rparr>
           else c)
      | None \<Rightarrow> (None, c))"

text \<open>
  The eviction loop of \<open>set\<close>: \<open>while (fCurrentBytes > fMaxBytes)\<close>, stopping at the entry
  just inserted (the one under \<open>key\<close>).  \<open>None\<close> is the failure of \<open>SkASSERT(tail)\<close>.
\<close>

function evict :: "('k, 'w::len word) CacheImpl \<Rightarrow> 'k \<Rightarrow> ('k, 'w word) CacheImpl option" where
  "evict c key =
     (if fCurrentBytes c > fMaxBytes c then
        (if fLRU c = [] then None
         else if fKey (last (fLRU c)) = key then Some c
         else evict (removeInternal c (last (fLRU c))) key)
      else Some c)"
  by pat_completeness auto

termination evict
  by (relation "measure (\<lambda>(c, key). length (fLRU c))")
     (auto simp: removeInternal_def intro: length_filter_less [OF last_in_set])

declare evict.simps [simp del]

definition set_entry :: "('k, 'w::len word) CacheImpl \<Rightarrow> 'k \<Rightarrow> 'w word SkSpecialImage \<Rightarrow> SkIPoint \<Rightarrow>
    ('k, 'w word) CacheImpl option" where
  "set_entry c key img offset =
     (let c1 = (case lookup_find c key of Some v \<Rightarrow> removeInternal c v | None \<Rightarrow> c);
          v = \<lparr>fKey = key, fImage = img, fOffset = offset\<rparr>;
          c2 = c1\<lparr>fLRU := v # fLRU c1, fCurrentBytes := fCurrentBytes c1 + getSize img\<rparr>
      in evict c2 key)"

text \<open>\<open>purge()\<close>: \<open>while (fCurrentBytes > 0)\<close> remove the tail.\<close>

function purge :: "('k, 'w::len word) CacheImpl \<Rightarrow> ('k, 'w word) CacheImpl option" where
  "purge c =
     (if fCurrentBytes c > 0 then
        (if fLRU c = [] then None
         else purge (removeInternal c (last (fLRU c))))
      else Some c)"
  by pat_completeness auto

termination purge
  by (relation "measure (\<lambda>c. length (fLRU c))")
     (auto simp: removeInternal_def intro: length_filter_less [OF last_in_set])

declare purge.simps [simp del]


text \<open>
  The invariant of every cache built from \<open>Create\<close> by \<open>get\<close>, \<open>set\<close> and \<open>purge\<close>: one
  entry per key, and \<open>fCurrentBytes\<close> is the sum (in \<open>size_t\<close>) of the live entries' sizes.
\<close>

definition cache_inv :: "('k, 'w::len word) CacheImpl \<Rightarrow> bool" where
  "cache_inv c \<longleftrightarrow> distinct (map fKey (fLRU c)) \<and>
     fCurrentBytes c = sum_list (map (\<lambda>e. getSize (fImage e)) (fLRU c))"

section \<open>SkImageFilter.cpp: CropRect::applyTo\<close>

text \<open>
  The crop edge flags of \<open>SkImageFilter.h\<close>, which is not among the sources: their values
  are those of the header (\<open>kHasLeft_CropEdge = 0x01\<close>, \<open>kHasTop_CropEdge = 0x02\<close>,
  \<open>kHasWidth_CropEdge = 0x04\<close>, \<open>kHasHeight_CropEdge = 0x08\<close>).
\<close>

definition kHasLeft_CropEdge :: uint32 where "kHasLeft_CropEdge = 0x01"
definition kHasTop_CropEdge :: uint32 where "kHasTop_CropEdge = 0x02"
definition kHasWidth_CropEdge :: uint32 where "kHasWidth_CropEdge = 0x04"
definition kHasHeight_CropEdge :: uint32 where "kHasHeight_CropEdge = 0x08"

text \<open>\<open>SkIRect::width()\<close> and \<open>height()\<close>: differences of \<open>int32_t\<close>.\<close>

definition width :: "SkIRect \<Rightarrow> int32" where
  "width r = fRight r - fLeft r"

definition height :: "SkIRect \<Rightarrow> int32" where
  "height r = fBottom r - fTop r"

text \<open>A \<open>CropRect\<close>: the scalar rectangle (of type \<open>'r\<close>) and the flags.\<close>

record 'r CropRect =
  fRect :: 'r
  fFlags :: uint32

text \<open>
  \<open>CropRect::applyTo(imageBounds, ctm, cropped)\<close>.  The floating-point operations
  \<open>SkMatrix::mapRect\<close> and \<open>SkRect::roundOut\<close> are the parameters \<open>mapRect\<close> and
  \<open>roundOut\<close>.  Each \<open>if\<close> of the source updates \<open>cropped\<close> in turn.
\<close>

definition applyTo :: "('m \<Rightarrow> 'r \<Rightarrow> 'r) \<Rightarrow> ('r \<Rightarrow> SkIRect) \<Rightarrow> 'r CropRect \<Rightarrow>
    SkIRect \<Rightarrow> 'm \<Rightarrow> SkIRect" where
  "applyTo mapRect roundOut crop imageBounds ctm =
     (let cropped = imageBounds in
      if fFlags crop \<noteq> 0 then
        (let devICropR = roundOut (mapRect ctm (fRect crop));
             cropped = (if fFlags crop AND kHasLeft_CropEdge \<noteq> 0
                        then cropped\<lparr>fLeft := fLeft devICropR\<rparr> else cropped);
             cropped = (if fFlags crop AND kHasTop_CropEdge \<noteq> 0
                        then cropped\<lparr>fTop := fTop devICropR\<rparr> else cropped);
             cropped = (if fFlags crop AND kHasWidth_CropEdge \<noteq> 0
                        then cropped\<lparr>fRight := fLeft cropped + width devICropR\<rparr> else cropped);
             cropped = (if fFlags crop AND kHasHeight_CropEdge \<noteq> 0
                        then cropped\<lparr>fBottom := fTop cropped + height devICropR\<rparr> else cropped)
         in cropped)
      else cropped)"

text \<open>
  Modelled from the spec: \<open>SkMatrix::mapRect\<close> and \<open>SkRect::roundOut\<close> (\<open>SkMatrix\<close> and
  \<open>SkRect\<close> are not among the sources), to run \<open>applyTo\<close> on an example.  Section 4.4:
  the crop's corners go through the CTM and the result is rounded outward to integers:
  floor of left and top, ceiling of right and bottom (on the finite scalars; others are
  not used in the example).  Under the identity CTM the rectangle maps to itself.
\<close>

definition scalar_floor :: "SkScalar \<Rightarrow> int32" where
  "scalar_floor x = (case x of Finite q \<Rightarrow> word_of_int \<lfloor>q\<rfloor> | _ \<Rightarrow> 0)"

definition scalar_ceil :: "SkScalar \<Rightarrow> int32" where
  "scalar_ceil x = (case x of Finite q \<Rightarrow> word_of_int \<lceil>q\<rceil> | _ \<Rightarrow> 0)"

definition roundOut_finite :: "SkRect \<Rightarrow> SkIRect" where
  "roundOut_finite r = \<lparr>fLeft = scalar_floor (rLeft r), fTop = scalar_floor (rTop r),
     fRight = scalar_ceil (rRight r), fBottom = scalar_ceil (rBottom r)\<rparr>"

definition mapRect_identity :: "SkMatrix \<Rightarrow> SkRect \<Rightarrow> SkRect" where
  "mapRect_identity m r = r"

text \<open>A crop rectangle (4.5, 1.5, 10.5, 20.5) with given flags, and image bounds.\<close>

definition example_crop :: "uint32 \<Rightarrow> SkRect CropRect" where
  "example_crop flags = \<lparr>fRect = \<lparr>rLeft = Finite (9/2), rTop = Finite (3/2),
      rRight = Finite (21/2), rBottom = Finite (41/2)\<rparr>, fFlags = flags\<rparr>"

definition example_bounds :: SkIRect where
  "example_bounds = \<lparr>fLeft = 2, fTop = 3, fRight = 50, fBottom = 60\<rparr>"

section \<open>SkImageFilter.cpp: filterImage\<close>

text \<open>
  \<open>Cache::Key\<close> as \<open>filterImage\<close> constructs it (the matrix type \<open>'m\<close> is a parameter).
\<close>

record 'm Key =
  key_uniqueID :: uint32
  key_matrix :: 'm
  key_clipBounds :: SkIRect
  key_srcGenID :: uint32
  key_srcSubset :: SkIRect

text \<open>
  \<open>Context\<close>: \<open>ctm()\<close>, \<open>clipBounds()\<close> and whether \<open>cache()\<close> is non-null.  The cache
  object that \<open>cache()\<close> points to is mutable and lives in the state below.
\<close>

record 'm Context =
  ctm :: 'm
  clipBounds :: SkIRect
  has_cache :: bool

text \<open>The fields of a filter node that \<open>filterImage\<close> reads.\<close>

record SkImageFilter =
  fUniqueID :: uint32
  fUsesSrcInput :: bool

text \<open>
  The state \<open>filterImage\<close> works on: the cache the context points to, the node's
  \<open>fCacheKeys\<close>, and a counter of the calls of \<open>onFilterImage\<close> (kept to state how often
  the node computes).
\<close>

record ('m, 's) filter_state =
  the_cache :: "('m Key, 's) CacheImpl"
  fCacheKeys :: "'m Key list"
  compute_calls :: nat

definition MakeWH :: "int32 \<Rightarrow> int32 \<Rightarrow> SkIRect" where
  "MakeWH w h = \<lparr>fLeft = 0, fTop = 0, fRight = w, fBottom = h\<rparr>"

definition make_key :: "SkImageFilter \<Rightarrow> 's SkSpecialImage \<Rightarrow> 'm Context \<Rightarrow> 'm Key" where
  "make_key node src context =
     (let srcGenID = (if fUsesSrcInput node then uniqueID src else 0);
          srcSubset = (if fUsesSrcInput node then subset src else MakeWH 0 0)
      in \<lparr>key_uniqueID = fUniqueID node, key_matrix = ctm context,
          key_clipBounds = clipBounds context, key_srcGenID = srcGenID,
          key_srcSubset = srcSubset\<rparr>)"

text \<open>
  \<open>filterImage(src, context, offset)\<close>.  The virtual \<open>onFilterImage\<close> is the parameter
  \<open>compute\<close>.  It gets the source, the context, the incoming \<open>*offset\<close>, the cache and the
  node's \<open>fCacheKeys\<close>, and returns the result (\<open>None\<close> for \<open>nullptr\<close>), \<open>*offset\<close>, the
  cache and \<open>fCacheKeys\<close>: an implementation may use the cache through its inputs'
  \<open>filterImage\<close> calls, and the base class's \<open>onFilterImage\<close> calls
  \<open>filterImageDeprecated\<close> on the node itself, which may insert into the cache and push a
  key of its own onto \<open>fCacheKeys\<close>.  The outer \<open>None\<close> is a failed \<open>SkASSERT\<close>.
\<close>

definition filterImage ::
  "('w word SkSpecialImage \<Rightarrow> 'm Context \<Rightarrow> SkIPoint \<Rightarrow> ('m Key, 'w word) CacheImpl \<Rightarrow>
      'm Key list \<Rightarrow>
      'w word SkSpecialImage option \<times> SkIPoint \<times> ('m Key, 'w word) CacheImpl \<times> 'm Key list) \<Rightarrow>
   SkImageFilter \<Rightarrow> 'w::len word SkSpecialImage \<Rightarrow> 'm Context \<Rightarrow> SkIPoint \<Rightarrow>
   ('m, 'w word) filter_state \<Rightarrow>
   ('w word SkSpecialImage option \<times> SkIPoint \<times> ('m, 'w word) filter_state) option" where
  "filterImage compute node src context offset st =
     (let key = make_key node src context;
          (hit, c) = (if has_cache context then get (the_cache st) key
                      else (None, the_cache st))
      in case hit of
           Some (result, off) \<Rightarrow> Some (Some result, off, st\<lparr>the_cache := c\<rparr>)
         | None \<Rightarrow>
             (let (result, off, c, keys) = compute src context offset c (fCacheKeys st);
                  st = st\<lparr>the_cache := c, fCacheKeys := keys,
                          compute_calls := compute_calls st + 1\<rparr>
              in case result of
                   Some img \<Rightarrow>
                     if has_cache context then
                       (case set_entry c key img off of
                          None \<Rightarrow> None
                        | Some c \<Rightarrow>
                            Some (result, off,
                              st\<lparr>the_cache := c, fCacheKeys := fCacheKeys st @ [key]\<rparr>))
                     else Some (result, off, st)
                 | None \<Rightarrow> Some (result, off, st)))"

text \<open>
  Implementations of \<open>onFilterImage\<close>, to run \<open>filterImage\<close> on: a filter that fails
  (returns \<open>nullptr\<close> and leaves \<open>*offset\<close> alone); a filter without inputs that returns
  a fixed image at offset (0, 0); and a filter that, as the base class's \<open>onFilterImage\<close>
  does through \<open>filterImageDeprecated\<close>, pushes a key of its own onto the node's
  \<open>fCacheKeys\<close> before it returns its result.
\<close>

definition failing_filter :: "'w word SkSpecialImage \<Rightarrow> 'm Context \<Rightarrow> SkIPoint \<Rightarrow>
    ('m Key, 'w::len word) CacheImpl \<Rightarrow> 'm Key list \<Rightarrow>
    'w word SkSpecialImage option \<times> SkIPoint \<times> ('m Key, 'w word) CacheImpl \<times> 'm Key list" where
  "failing_filter src context offset c keys = (None, offset, c, keys)"

definition constant_filter :: "'w word SkSpecialImage \<Rightarrow> 'w word SkSpecialImage \<Rightarrow> 'm Context \<Rightarrow>
    SkIPoint \<Rightarrow> ('m Key, 'w::len word) CacheImpl \<Rightarrow> 'm Key list \<Rightarrow>
    'w word SkSpecialImage option \<times> SkIPoint \<times> ('m Key, 'w word) CacheImpl \<times> 'm Key list" where
  "constant_filter img src context offset c keys = (Some img, (0, 0), c, keys)"



text \<open>A node, a source image, a result image, contexts and a fresh state, as inputs.\<close>

definition identity_matrix :: SkMatrix where
  "identity_matrix = [Finite 1, Finite 0, Finite 0, Finite 0, Finite 1, Finite 0,
     Finite 0, Finite 0, Finite 1]"

definition example_node :: SkImageFilter where
  "example_node = \<lparr>fUniqueID = 1, fUsesSrcInput = True\<rparr>"

definition example_src :: "64 word SkSpecialImage" where
  "example_src = \<lparr>uniqueID = 5, subset = MakeWH 10 10, getSize = 400\<rparr>"

definition example_result :: "64 word SkSpecialImage" where
  "example_result = \<lparr>uniqueID = 6, subset = MakeWH 5 5, getSize = 100\<rparr>"

definition example_context :: "int32 \<Rightarrow> SkMatrix Context" where
  "example_context w = \<lparr>ctm = identity_matrix, clipBounds = MakeWH w w, has_cache = True\<rparr>"

definition example_state :: "64 word \<Rightarrow> (SkMatrix, 64 word) filter_state" where
  "example_state maxBytes = \<lparr>the_cache = Create maxBytes, fCacheKeys = [], compute_calls = 0\<rparr>"

section \<open>SkEdgeBuilder.cpp: edges and vertical fusion\<close>

type_synonym SkFixed = "32 word"

datatype Combine = kNo_Combine | kPartial_Combine | kTotal_Combine

text \<open>
  The fields of \<open>SkEdge\<close> and \<open>SkAnalyticEdge\<close> that the builder reads and writes
  (\<open>int8_t fCurveCount, fWinding\<close>; the rest are \<open>SkFixed\<close> or \<open>int32_t\<close>).  The curve
  edges \<open>SkQuadraticEdge\<close>, \<open>SkCubicEdge\<close> extend them; the builder only looks at these
  fields.
\<close>

record edge_fields =
  fX :: SkFixed
  fDX :: SkFixed
  fCurveCount :: "8 word"
  fWinding :: "8 word"

record SkEdge = edge_fields +
  fFirstY :: int32
  fLastY :: int32

record SkAnalyticEdge = edge_fields +
  fUpperY :: SkFixed
  fLowerY :: SkFixed
  fY :: SkFixed

text \<open>
  \<open>SkBasicEdgeBuilder::combineVertical(edge, last)\<close>: the result and \<open>*last\<close> as the call
  leaves it (\<open>prev\<close> is the source's \<open>last\<close>).  \<open><\<close> and \<open>>\<close> on \<open>int32_t\<close>
  are signed.
\<close>

definition SkBasicEdgeBuilder_combineVertical :: "SkEdge \<Rightarrow> SkEdge \<Rightarrow> Combine \<times> SkEdge" where
  "SkBasicEdgeBuilder_combineVertical edge prev =
     (if fCurveCount prev \<noteq> 0 \<or> fDX prev \<noteq> 0 \<or> fX edge \<noteq> fX prev then (kNo_Combine, prev)
      else if fWinding edge = fWinding prev then
        (if fLastY edge + 1 = fFirstY prev then
           (kPartial_Combine, prev\<lparr>fFirstY := fFirstY edge\<rparr>)
         else if fFirstY edge = fLastY prev + 1 then
           (kPartial_Combine, prev\<lparr>fLastY := fLastY edge\<rparr>)
         else (kNo_Combine, prev))
      else if fFirstY edge = fFirstY prev then
        (if fLastY edge = fLastY prev then (kTotal_Combine, prev)
         else if sint (fLastY edge) < sint (fLastY prev) then
           (kPartial_Combine, prev\<lparr>fFirstY := fLastY edge + 1\<rparr>)
         else
           (kPartial_Combine,
            prev\<lparr>fFirstY := fLastY prev + 1, fLastY := fLastY edge, fWinding := fWinding edge\<rparr>))
      else if fLastY edge = fLastY prev then
        (if sint (fFirstY edge) > sint (fFirstY prev) then
           (kPartial_Combine, prev\<lparr>fLastY := fFirstY edge - 1\<rparr>)
         else
           (kPartial_Combine,
            prev\<lparr>fLastY := fFirstY prev - 1, fFirstY := fFirstY edge, fWinding := fWinding edge\<rparr>))
      else (kNo_Combine, prev))"

text \<open>\<open>SkAbs32\<close> of \<open>SkTypes.h\<close>: \<open>value < 0 ? -value : value\<close> on \<open>int32_t\<close>.\<close>

definition SkAbs32 :: "int32 \<Rightarrow> int32" where
  "SkAbs32 x = (if sint x < 0 then - x else x)"

text \<open>The lambda of \<open>SkAnalyticEdgeBuilder::combineVertical\<close>.\<close>

definition approximately_equal :: "SkFixed \<Rightarrow> SkFixed \<Rightarrow> bool" where
  "approximately_equal a b \<longleftrightarrow> sint (SkAbs32 (a - b)) < 0x100"

definition SkAnalyticEdgeBuilder_combineVertical ::
    "SkAnalyticEdge \<Rightarrow> SkAnalyticEdge \<Rightarrow> Combine \<times> SkAnalyticEdge" where
  "SkAnalyticEdgeBuilder_combineVertical edge prev =
     (if fCurveCount prev \<noteq> 0 \<or> fDX prev \<noteq> 0 \<or> fX edge \<noteq> fX prev then (kNo_Combine, prev)
      else if fWinding edge = fWinding prev then
        (if fLowerY edge = fUpperY prev then
           (kPartial_Combine, prev\<lparr>fUpperY := fUpperY edge, fY := fUpperY edge\<rparr>)
         else if approximately_equal (fUpperY edge) (fLowerY prev) then
           (kPartial_Combine, prev\<lparr>fLowerY := fLowerY edge\<rparr>)
         else (kNo_Combine, prev))
      else if approximately_equal (fUpperY edge) (fUpperY prev) then
        (if approximately_equal (fLowerY edge) (fLowerY prev) then (kTotal_Combine, prev)
         else if sint (fLowerY edge) < sint (fLowerY prev) then
           (kPartial_Combine, prev\<lparr>fUpperY := fLowerY edge, fY := fLowerY edge\<rparr>)
         else
           (kPartial_Combine,
            prev\<lparr>fUpperY := fLowerY prev, fY := fLowerY prev, fLowerY := fLowerY edge,
                 fWinding := fWinding edge\<rparr>))
      else if approximately_equal (fLowerY edge) (fLowerY prev) then
        (if sint (fUpperY edge) > sint (fUpperY prev) then
           (kPartial_Combine, prev\<lparr>fLowerY := fUpperY edge\<rparr>)
         else
           (kPartial_Combine,
            prev\<lparr>fLowerY := fUpperY prev, fUpperY := fUpperY edge, fY := fUpperY edge,
                 fWinding := fWinding edge\<rparr>))
      else (kNo_Combine, prev))"

definition is_vertical :: "'a edge_fields_scheme \<Rightarrow> bool" where
  "is_vertical edge \<longleftrightarrow> fDX edge = 0 \<and> fCurveCount edge = 0"


section \<open>SkEdgeBuilder.cpp: the builders\<close>

text \<open>
  Assertions (\<open>SkASSERT\<close>, \<open>SkDEBUGFAIL\<close>) are modelled as they act in a debug build: a
  failed one ends the call with \<open>DebugFail\<close>.
\<close>

datatype error = DebugFail

datatype Verb = kMove_Verb | kLine_Verb | kQuad_Verb | kConic_Verb | kCubic_Verb | kClose_Verb
  | kDone_Verb

text \<open>
  A point buffer \<open>SkPoint pts[]\<close> is a list; \<open>pts + i\<close> is \<open>drop i pts\<close>.  Every buffer
  the builder reads has the slots it reads.
\<close>

type_synonym points = "SkPoint list"

text \<open>
  The virtual methods of \<open>SkEdgeBuilder\<close>, over the list of edges built so far (in
  insertion order, the top of the list last).  \<open>addPolyLine\<close> gives the \<open>Combine\<close>, the
  edge it has set up in the slot \<open>edge\<close> (if \<open>setLine\<close> succeeded) and the list with
  \<open>edgePtr[-1]\<close> as \<open>combineVertical\<close> leaves it.
\<close>

record 'e SkEdgeBuilder =
  addLine :: "points \<Rightarrow> 'e list \<Rightarrow> 'e list"
  addQuad :: "points \<Rightarrow> 'e list \<Rightarrow> 'e list"
  addCubic :: "points \<Rightarrow> 'e list \<Rightarrow> 'e list"
  addPolyLine :: "points \<Rightarrow> 'e list \<Rightarrow> Combine \<times> 'e option \<times> 'e list"
  recoverClip :: "SkIRect \<Rightarrow> SkRect"
  chopCubics :: bool

text \<open>
  \<open>addLine\<close> of the basic and the analytic builder, over the edge set-up (\<open>setLine\<close>,
  \<open>None\<close> when it returns false) and \<open>combineVertical\<close>.
\<close>

definition addLine_combining :: "(SkPoint \<Rightarrow> SkPoint \<Rightarrow> ('a edge_fields_scheme) option) \<Rightarrow>
    ('a edge_fields_scheme \<Rightarrow> 'a edge_fields_scheme \<Rightarrow> Combine \<times> 'a edge_fields_scheme) \<Rightarrow>
    points \<Rightarrow> 'a edge_fields_scheme list \<Rightarrow> 'a edge_fields_scheme list" where
  "addLine_combining setLine combineVertical pts fList =
     (case setLine (pts ! 0) (pts ! 1) of
        None \<Rightarrow> fList
      | Some edge \<Rightarrow>
          (let (combine, fList) =
                 (if is_vertical edge \<and> fList \<noteq> []
                  then (let (c, top) = combineVertical edge (last fList)
                        in (c, butlast fList @ [top]))
                  else (kNo_Combine, fList))
           in case combine of
                kTotal_Combine \<Rightarrow> butlast fList
              | kPartial_Combine \<Rightarrow> fList
              | kNo_Combine \<Rightarrow> fList @ [edge]))"

text \<open>\<open>addQuad\<close>, \<open>addCubic\<close> and the Bezier builder's \<open>addLine\<close>: push if the set-up succeeds.\<close>

definition add_if_set :: "(points \<Rightarrow> 'e option) \<Rightarrow> points \<Rightarrow> 'e list \<Rightarrow> 'e list" where
  "add_if_set setEdge pts fList =
     (case setEdge pts of None \<Rightarrow> fList | Some edge \<Rightarrow> fList @ [edge])"

text \<open>
  \<open>addPolyLine\<close> of the basic and the analytic builder; a failed \<open>setLine\<close> returns
  \<open>kPartial_Combine\<close> ("a convenient lie").
\<close>

definition addPolyLine_combining :: "(SkPoint \<Rightarrow> SkPoint \<Rightarrow> ('a edge_fields_scheme) option) \<Rightarrow>
    ('a edge_fields_scheme \<Rightarrow> 'a edge_fields_scheme \<Rightarrow> Combine \<times> 'a edge_fields_scheme) \<Rightarrow>
    points \<Rightarrow> 'a edge_fields_scheme list \<Rightarrow>
    Combine \<times> 'a edge_fields_scheme option \<times> 'a edge_fields_scheme list" where
  "addPolyLine_combining setLine combineVertical pts edges =
     (case setLine (pts ! 0) (pts ! 1) of
        Some edge \<Rightarrow>
          (if is_vertical edge \<and> edges \<noteq> []
           then (let (c, top) = combineVertical edge (last edges)
                 in (c, Some edge, butlast edges @ [top]))
           else (kNo_Combine, Some edge, edges))
      | None \<Rightarrow> (kPartial_Combine, None, edges))"

definition addPolyLine_bezier :: "(points \<Rightarrow> 'e option) \<Rightarrow> points \<Rightarrow> 'e list \<Rightarrow>
    Combine \<times> 'e option \<times> 'e list" where
  "addPolyLine_bezier setLine pts edges =
     (case setLine pts of
        Some edge \<Rightarrow> (kNo_Combine, Some edge, edges)
      | None \<Rightarrow> (kPartial_Combine, None, edges))"

text \<open>
  \<open>SkIntToScalar\<close> and the three \<open>recoverClip\<close>s (\<open>>>\<close> on \<open>int32_t\<close> is arithmetic).
  The scalar is the integer itself; the code's conversion to a 32-bit float is exact up
  to \<open>2^24\<close> in absolute value and rounds beyond.  The result only goes to the clippers.
\<close>

definition SkIntToScalar :: "int32 \<Rightarrow> SkScalar" where
  "SkIntToScalar x = Finite (of_int (sint x))"

definition recoverClip_shifted :: "nat \<Rightarrow> SkIRect \<Rightarrow> SkRect" where
  "recoverClip_shifted fClipShift src =
     \<lparr>rLeft = SkIntToScalar (signed_drop_bit fClipShift (fLeft src)),
      rTop = SkIntToScalar (signed_drop_bit fClipShift (fTop src)),
      rRight = SkIntToScalar (signed_drop_bit fClipShift (fRight src)),
      rBottom = SkIntToScalar (signed_drop_bit fClipShift (fBottom src))\<rparr>"

definition SkRect_Make :: "SkIRect \<Rightarrow> SkRect" where
  "SkRect_Make src =
     \<lparr>rLeft = SkIntToScalar (fLeft src), rTop = SkIntToScalar (fTop src),
      rRight = SkIntToScalar (fRight src), rBottom = SkIntToScalar (fBottom src)\<rparr>"

text \<open>
  The three builders.  The edge set-up functions (\<open>SkEdge::setLine\<close>, \<open>setQuadratic\<close>,
  \<open>setCubic\<close> and their analytic and Bezier counterparts) are not among the sources and
  are parameters.  \<open>chopCubics()\<close> is declared in \<open>SkEdgeBuilder.h\<close>: true for the basic
  and the analytic builder, false for the Bezier builder.
\<close>

definition SkBasicEdgeBuilder :: "nat \<Rightarrow> (SkPoint \<Rightarrow> SkPoint \<Rightarrow> nat \<Rightarrow> SkEdge option) \<Rightarrow>
    (points \<Rightarrow> nat \<Rightarrow> SkEdge option) \<Rightarrow> (points \<Rightarrow> nat \<Rightarrow> SkEdge option) \<Rightarrow>
    SkEdge SkEdgeBuilder" where
  "SkBasicEdgeBuilder fClipShift setLine setQuadratic setCubic =
     \<lparr>addLine = addLine_combining (\<lambda>p0 p1. setLine p0 p1 fClipShift)
                  SkBasicEdgeBuilder_combineVertical,
      addQuad = add_if_set (\<lambda>pts. setQuadratic pts fClipShift),
      addCubic = add_if_set (\<lambda>pts. setCubic pts fClipShift),
      addPolyLine = addPolyLine_combining (\<lambda>p0 p1. setLine p0 p1 fClipShift)
                      SkBasicEdgeBuilder_combineVertical,
      recoverClip = recoverClip_shifted fClipShift,
      chopCubics = True\<rparr>"

definition SkAnalyticEdgeBuilder :: "(SkPoint \<Rightarrow> SkPoint \<Rightarrow> SkAnalyticEdge option) \<Rightarrow>
    (points \<Rightarrow> SkAnalyticEdge option) \<Rightarrow> (points \<Rightarrow> SkAnalyticEdge option) \<Rightarrow>
    SkAnalyticEdge SkEdgeBuilder" where
  "SkAnalyticEdgeBuilder setLine setQuadratic setCubic =
     \<lparr>addLine = addLine_combining setLine SkAnalyticEdgeBuilder_combineVertical,
      addQuad = add_if_set setQuadratic,
      addCubic = add_if_set setCubic,
      addPolyLine = addPolyLine_combining setLine SkAnalyticEdgeBuilder_combineVertical,
      recoverClip = SkRect_Make,
      chopCubics = True\<rparr>"

definition SkBezierEdgeBuilder :: "(points \<Rightarrow> 'e option) \<Rightarrow> (points \<Rightarrow> 'e option) \<Rightarrow>
    (points \<Rightarrow> 'e option) \<Rightarrow> 'e SkEdgeBuilder" where
  "SkBezierEdgeBuilder setLine setQuad setCubic =
     \<lparr>addLine = add_if_set setLine,
      addQuad = add_if_set setQuad,
      addCubic = add_if_set setCubic,
      addPolyLine = addPolyLine_bezier setLine,
      recoverClip = SkRect_Make,
      chopCubics = False\<rparr>"


section \<open>SkEdgeBuilder.cpp: buildPoly, build and buildEdges\<close>

text \<open>
  What the builder asks of a path: the verbs that \<open>SkPath::Iter(path, true)\<close> yields
  with their points and \<open>conicWeight()\<close>, \<open>countPoints()\<close>, \<open>isConvex()\<close> and
  \<open>getSegmentMasks()\<close>.
\<close>

record SkPath =
  iter :: "(Verb \<times> points \<times> SkScalar) list"
  countPoints :: int32
  isConvex :: bool
  getSegmentMasks :: uint32

text \<open>
  Constants of headers that are not among the sources: \<open>SkPath::kLine_SegmentMask\<close> is
  \<open>1 << 0\<close>; \<open>SkLineClipper::kMaxClippedLineSegments\<close> is \<open>kMaxPoints - 1 = 3\<close>;
  \<open>SkPathPriv::PtsInIter\<close> is the number of points of a verb.
\<close>

definition kLine_SegmentMask :: uint32 where
  "kLine_SegmentMask = 1"

definition kMaxClippedLineSegments :: nat where
  "kMaxClippedLineSegments = 3"

fun PtsInIter :: "Verb \<Rightarrow> nat" where
  "PtsInIter kMove_Verb = 1"
| "PtsInIter kLine_Verb = 2"
| "PtsInIter kQuad_Verb = 3"
| "PtsInIter kConic_Verb = 3"
| "PtsInIter kCubic_Verb = 4"
| "PtsInIter kClose_Verb = 0"
| "PtsInIter kDone_Verb = 0"

text \<open>\<open>SkScalarsAreFinite\<close> on the coordinates of \<open>count\<close> points.\<close>

fun SkScalarIsFinite :: "SkScalar \<Rightarrow> bool" where
  "SkScalarIsFinite (Finite q) = True"
| "SkScalarIsFinite PosInfinity = False"
| "SkScalarIsFinite NegInfinity = False"
| "SkScalarIsFinite NaN = False"

definition SkScalarsAreFinite :: "points \<Rightarrow> nat \<Rightarrow> bool" where
  "SkScalarsAreFinite pts count =
     list_all (\<lambda>p. SkScalarIsFinite (fst p) \<and> SkScalarIsFinite (snd p)) (take count pts)"

text \<open>
  Modelled from the spec: \<open>SkSafeMath::mul\<close> (\<open>SkSafeMath.h\<close> is not among the sources):
  the product in \<open>size_t\<close>, and whether it is the true product (the \<open>safe\<close> flag of
  \<open>buildPoly\<close> starts true and is read right after the one multiplication).
\<close>

definition SkSafeMath_mul :: "'w::len word \<Rightarrow> 'w word \<Rightarrow> 'w word \<times> bool" where
  "SkSafeMath_mul x y = (x * y, unat x * unat y < 2 ^ LENGTH('w))"

text \<open>
  The collaborators the builder calls, none of them among the sources: the line clipper
  (\<open>lineCount\<close> and \<open>lines[]\<close>), the edge clipper (the constructor's \<open>canCullToTheRight\<close>,
  then the result of \<open>clipLine\<close>/\<open>clipQuad\<close>/\<open>clipCubic\<close> and the verbs and points that
  \<open>next\<close> hands out afterwards), the choppers (\<open>n\<close> and the output points) and the conic
  approximation (\<open>countQuads()\<close> and the quad points).
\<close>

type_synonym segments = "(Verb \<times> points) list"

record collaborators =
  ClipLine :: "points \<Rightarrow> SkRect \<Rightarrow> bool \<Rightarrow> int \<times> points"
  clipLine :: "bool \<Rightarrow> SkPoint \<Rightarrow> SkPoint \<Rightarrow> SkRect \<Rightarrow> bool \<times> segments"
  clipQuad :: "bool \<Rightarrow> points \<Rightarrow> SkRect \<Rightarrow> bool \<times> segments"
  clipCubic :: "bool \<Rightarrow> points \<Rightarrow> SkRect \<Rightarrow> bool \<times> segments"
  SkChopQuadAtYExtrema :: "points \<Rightarrow> int \<times> points"
  SkChopCubicAtYExtrema :: "points \<Rightarrow> int \<times> points"
  computeQuads :: "points \<Rightarrow> SkScalar \<Rightarrow> SkScalar \<Rightarrow> int \<times> points"

text \<open>
  The builder object: \<open>fList\<close>, \<open>fEdgeList\<close> and the arrays requested from \<open>fAlloc\<close>
  (their element counts, in order).
\<close>

record ('e, 's) builder_state =
  fList :: "'e list"
  fEdgeList :: "'e list"
  fAlloc :: "'s list"

text \<open>The \<open>switch\<close> on the result of \<open>addPolyLine\<close> in \<open>buildPoly\<close>.\<close>

definition poly_step :: "'e SkEdgeBuilder \<Rightarrow> points \<Rightarrow> 'e list \<Rightarrow> 'e list" where
  "poly_step b pts edges =
     (case addPolyLine b pts edges of
        (kTotal_Combine, _, edges) \<Rightarrow> butlast edges
      | (kPartial_Combine, _, edges) \<Rightarrow> edges
      | (kNo_Combine, Some edge, edges) \<Rightarrow> edges @ [edge]
      | (kNo_Combine, None, edges) \<Rightarrow> edges)"

text \<open>
  The two \<open>while\<close> loops of \<open>buildPoly\<close>, over the verbs up to \<open>kDone_Verb\<close>.  After
  them \<open>buildPoly\<close> asserts that the pointers written fit the pointer array, and
  \<open>SkToInt\<close> that the count fits an \<open>int\<close>.  The companion assertion on the bytes used of
  the edge array (\<open>edge - edgeStart\<close>) is not modelled: the model keeps the list of
  pointers, not the slot pointer.
\<close>

fun poly_loop :: "'e SkEdgeBuilder \<Rightarrow> collaborators \<Rightarrow> SkRect option \<Rightarrow> bool \<Rightarrow>
    (Verb \<times> points \<times> SkScalar) list \<Rightarrow> 'e list \<Rightarrow> error + 'e list" where
  "poly_loop b ext clip canCullToTheRight [] edges = Inr edges"
| "poly_loop b ext clip canCullToTheRight ((verb, pts, w) # rest) edges =
     (case verb of
        kDone_Verb \<Rightarrow> Inr edges
      | kMove_Verb \<Rightarrow> poly_loop b ext clip canCullToTheRight rest edges
      | kClose_Verb \<Rightarrow> poly_loop b ext clip canCullToTheRight rest edges
      | kLine_Verb \<Rightarrow>
          (case clip of
             Some clip_rect \<Rightarrow>
               (let (lineCount, lines) = ClipLine ext pts clip_rect canCullToTheRight
                in if lineCount > int kMaxClippedLineSegments then Inl DebugFail
                   else poly_loop b ext clip canCullToTheRight rest
                          (fold (\<lambda>i. poly_step b (drop i lines)) [0..<nat lineCount] edges))
           | None \<Rightarrow> poly_loop b ext clip canCullToTheRight rest (poly_step b pts edges))
      | _ \<Rightarrow> Inl DebugFail)"

definition buildPoly :: "'e SkEdgeBuilder \<Rightarrow> collaborators \<Rightarrow> SkPath \<Rightarrow> SkIRect option \<Rightarrow> bool \<Rightarrow>
    ('e, 'w::len word) builder_state \<Rightarrow> error + int \<times> ('e, 'w word) builder_state" where
  "buildPoly b ext path iclip canCullToTheRight st =
     (let maxEdgeCount = (word_of_int (sint (countPoints path)) :: 'w word);
          (maxEdgeCount, safe) =
             (if iclip \<noteq> None
              then SkSafeMath_mul maxEdgeCount (of_nat kMaxClippedLineSegments)
              else (maxEdgeCount, True))
      in if \<not> safe then Inr (0, st)
         else
           (let st = st\<lparr>fAlloc := fAlloc st @ [maxEdgeCount, maxEdgeCount], fEdgeList := []\<rparr>
            in case poly_loop b ext (map_option (recoverClip b) iclip) canCullToTheRight
                      (iter path) []
               of Inl e \<Rightarrow> Inl e
                | Inr edges \<Rightarrow>
                    if length edges > unat maxEdgeCount then Inl DebugFail
                    else if \<not> length edges < 2 ^ 31 then Inl DebugFail
                    else Inr (int (length edges), st\<lparr>fEdgeList := edges\<rparr>)))"

text \<open>
  The lambda \<open>apply_clipper\<close> of \<open>build\<close>: drain the clipper's segments up to \<open>kDone_Verb\<close>.
  It returns the list and whether it ran to the end; on a non-finite segment it sets
  \<open>is_finite = false\<close> and returns.
\<close>

fun apply_clipper :: "'e SkEdgeBuilder \<Rightarrow> segments \<Rightarrow> 'e list \<Rightarrow> 'e list \<times> bool" where
  "apply_clipper b [] edges = (edges, True)"
| "apply_clipper b ((verb, pts) # rest) edges =
     (if verb = kDone_Verb then (edges, True)
      else if \<not> SkScalarsAreFinite pts (PtsInIter verb) then (edges, False)
      else apply_clipper b rest
             (case verb of
                kLine_Verb \<Rightarrow> addLine b pts edges
              | kQuad_Verb \<Rightarrow> addQuad b pts edges
              | kCubic_Verb \<Rightarrow> addCubic b pts edges
              | _ \<Rightarrow> edges))"

text \<open>One clipped primitive: \<open>if (clipper.clipX(..)) apply_clipper();\<close> on \<open>(fList, is_finite)\<close>.\<close>

definition clip_and_apply :: "'e SkEdgeBuilder \<Rightarrow> bool \<times> segments \<Rightarrow> 'e list \<times> bool \<Rightarrow>
    'e list \<times> bool" where
  "clip_and_apply b clipped s =
     (if fst clipped
      then (let (edges, ran) = apply_clipper b (snd clipped) (fst s)
            in (edges, snd s \<and> ran))
      else s)"

text \<open>
  The body of the clipped \<open>while\<close> loop of \<open>build\<close> for one verb: the clipper calls it
  makes, in order (one for a line, a quad or a cubic, \<open>countQuads()\<close> for a conic), each
  followed by \<open>apply_clipper\<close> if it returned true.
\<close>

definition clip_calls :: "collaborators \<Rightarrow> SkRect \<Rightarrow> bool \<Rightarrow> Verb \<times> points \<times> SkScalar \<Rightarrow>
    (bool \<times> segments) list" where
  "clip_calls ext clip canCullToTheRight v =
     (case v of (verb, pts, w) \<Rightarrow>
        (case verb of
           kLine_Verb \<Rightarrow> [clipLine ext canCullToTheRight (pts ! 0) (pts ! 1) clip]
         | kQuad_Verb \<Rightarrow> [clipQuad ext canCullToTheRight pts clip]
         | kConic_Verb \<Rightarrow>
             (let (countQuads, quadPts) = computeQuads ext pts w (Finite (1 / 4))
              in map (\<lambda>i. clipQuad ext canCullToTheRight (drop (2 * i) quadPts) clip)
                   [0..<nat countQuads])
         | kCubic_Verb \<Rightarrow> [clipCubic ext canCullToTheRight pts clip]
         | _ \<Rightarrow> []))"

definition build_clip_verb :: "'e SkEdgeBuilder \<Rightarrow> collaborators \<Rightarrow> SkRect \<Rightarrow> bool \<Rightarrow>
    Verb \<times> points \<times> SkScalar \<Rightarrow> 'e list \<times> bool \<Rightarrow> 'e list \<times> bool" where
  "build_clip_verb b ext clip canCullToTheRight v s =
     fold (clip_and_apply b) (clip_calls ext clip canCullToTheRight v) s"

text \<open>
  Whether draining a clipper's segments meets a non-finite one (one of the segments that
  \<open>next\<close> hands out before \<open>kDone_Verb\<close>), and the segments handed to the builder.
\<close>

definition non_finite_drained :: "segments \<Rightarrow> bool" where
  "non_finite_drained segs =
     list_ex (\<lambda>s. \<not> SkScalarsAreFinite (snd s) (PtsInIter (fst s)))
       (takeWhile (\<lambda>s. fst s \<noteq> kDone_Verb) segs)"

definition finite_prefix :: "segments \<Rightarrow> segments" where
  "finite_prefix segs =
     takeWhile (\<lambda>s. fst s \<noteq> kDone_Verb \<and> SkScalarsAreFinite (snd s) (PtsInIter (fst s))) segs"

text \<open>\<open>handle_quad\<close> and the body of the unclipped loop.\<close>

definition handle_quad :: "'e SkEdgeBuilder \<Rightarrow> collaborators \<Rightarrow> points \<Rightarrow> 'e list \<Rightarrow> 'e list" where
  "handle_quad b ext pts edges =
     (let (n, monoX) = SkChopQuadAtYExtrema ext pts
      in fold (\<lambda>i. addQuad b (drop (i * 2) monoX)) [0..<nat (n + 1)] edges)"

definition build_verb :: "'e SkEdgeBuilder \<Rightarrow> collaborators \<Rightarrow> Verb \<times> points \<times> SkScalar \<Rightarrow>
    'e list \<Rightarrow> 'e list" where
  "build_verb b ext v edges =
     (case v of (verb, pts, w) \<Rightarrow>
        (case verb of
           kLine_Verb \<Rightarrow> addLine b pts edges
         | kQuad_Verb \<Rightarrow> handle_quad b ext pts edges
         | kConic_Verb \<Rightarrow>
             (let (countQuads, quadPts) = computeQuads ext pts w (Finite (1 / 4))
              in fold (\<lambda>i. handle_quad b ext (drop (2 * i) quadPts)) [0..<nat countQuads] edges)
         | kCubic_Verb \<Rightarrow>
             (if \<not> chopCubics b then addCubic b pts edges
              else (let (n, monoY) = SkChopCubicAtYExtrema ext pts
                    in fold (\<lambda>i. addCubic b (drop (i * 3) monoY)) [0..<nat (n + 1)] edges))
         | _ \<Rightarrow> edges))"

text \<open>The verbs that the \<open>while\<close> loops see: those before the first \<open>kDone_Verb\<close>.\<close>

definition until_done :: "(Verb \<times> points \<times> SkScalar) list \<Rightarrow> (Verb \<times> points \<times> SkScalar) list" where
  "until_done vs = takeWhile (\<lambda>v. fst v \<noteq> kDone_Verb) vs"

definition build :: "'e SkEdgeBuilder \<Rightarrow> collaborators \<Rightarrow> SkPath \<Rightarrow> SkIRect option \<Rightarrow> bool \<Rightarrow>
    ('e, 'w::len word) builder_state \<Rightarrow> error + int \<times> ('e, 'w word) builder_state" where
  "build b ext path iclip canCullToTheRight st =
     (let (fList', is_finite) =
            (case iclip of
               Some r \<Rightarrow>
                 fold (build_clip_verb b ext (recoverClip b r) canCullToTheRight)
                   (until_done (iter path)) (fList st, True)
             | None \<Rightarrow> (fold (build_verb b ext) (until_done (iter path)) (fList st), True))
      in Inr (if is_finite then int (length fList') else 0,
              st\<lparr>fList := fList', fEdgeList := fList'\<rparr>))"

definition buildEdges :: "'e SkEdgeBuilder \<Rightarrow> collaborators \<Rightarrow> SkPath \<Rightarrow> SkIRect option \<Rightarrow>
    ('e, 'w::len word) builder_state \<Rightarrow> error + int \<times> ('e, 'w word) builder_state" where
  "buildEdges b ext path shiftedClip st =
     (let canCullToTheRight = \<not> isConvex path
      in case (if kLine_SegmentMask = getSegmentMasks path
               then buildPoly b ext path shiftedClip canCullToTheRight st
               else build b ext path shiftedClip canCullToTheRight st)
         of Inl e \<Rightarrow> Inl e
          | Inr (count, st) \<Rightarrow>
              if \<not> 0 \<le> count then Inl DebugFail
              else if \<not> canCullToTheRight \<and> count = 1 \<and> chopCubics b then Inl DebugFail
              else Inr (count, st))"


section \<open>Collaborators for running the builder on examples\<close>

text \<open>
  Modelled from the spec: \<open>SkEdge::setLine(p0, p1, shift)\<close> (\<open>SkEdge\<close> is not among the
  sources).  Section 3.1: a line edge carries integer \<open>firstY\<close> and \<open>lastY\<close>, fixed-point
  \<open>x\<close> and \<open>dx\<close>, a winding of +1 or -1 and \<open>curveCount = 0\<close>; section 4.1.3: the
  set-up may reject degenerate input.  Here, on finite coordinates scaled by
  \<open>2 ^ shift\<close>: the end points are ordered by Y (winding -1 if they were swapped), Y is
  rounded to the nearest integer, a line whose rounded ends coincide is rejected, \<open>fX\<close>
  is X at the centre of the first scanline and \<open>fDX\<close> the slope, both in 16.16.
\<close>

definition round_scalar :: "rat \<Rightarrow> int" where
  "round_scalar y = \<lfloor>y + 1 / 2\<rfloor>"

definition setLine_finite :: "rat \<Rightarrow> rat \<Rightarrow> rat \<Rightarrow> rat \<Rightarrow> 8 word \<Rightarrow> SkEdge option" where
  "setLine_finite x0 y0 x1 y1 winding =
     (let ytop = round_scalar y0; ybot = round_scalar y1
      in if ytop = ybot then None
         else (let slope = (x1 - x0) / (y1 - y0)
               in Some \<lparr>fX = word_of_int \<lfloor>(x0 + slope * (of_int ytop + 1 / 2 - y0)) * 65536\<rfloor>,
                        fDX = word_of_int \<lfloor>slope * 65536\<rfloor>,
                        fCurveCount = 0, fWinding = winding,
                        fFirstY = word_of_int ytop, fLastY = word_of_int (ybot - 1)\<rparr>))"

definition setLine_model :: "SkPoint \<Rightarrow> SkPoint \<Rightarrow> nat \<Rightarrow> SkEdge option" where
  "setLine_model p0 p1 shift =
     (case (p0, p1) of
        ((Finite x0, Finite y0), (Finite x1, Finite y1)) \<Rightarrow>
          (if y0 > y1
           then setLine_finite (x1 * 2 ^ shift) (y1 * 2 ^ shift) (x0 * 2 ^ shift) (y0 * 2 ^ shift) (- 1)
           else setLine_finite (x0 * 2 ^ shift) (y0 * 2 ^ shift) (x1 * 2 ^ shift) (y1 * 2 ^ shift) 1)
      | _ \<Rightarrow> None)"

text \<open>The examples are polygons: the curve set-up of their builder is never called.\<close>

definition no_curve_setup :: "points \<Rightarrow> nat \<Rightarrow> SkEdge option" where
  "no_curve_setup pts shift = None"

text \<open>
  Modelled from the spec: \<open>SkLineClipper::ClipLine(pts, clip, lines, canCullToTheRight)\<close>
  (\<open>SkLineClipper\<close> is not among the sources), on finite coordinates.  Section 4.1 and
  the comment in \<open>buildPoly\<close>: a line gives at most three sub-lines; what lies above or
  below the clip is dropped; what lies left of the clip becomes a vertical segment on the
  clip's left side; what lies right of it becomes a vertical segment on the clip's right
  side, except that a line entirely to the right is dropped when \<open>canCullToTheRight\<close>.
  The result is \<open>lineCount\<close> (0 when everything is dropped) and the points of \<open>lines\<close>,
  one more than \<open>lineCount\<close>, in the direction of the input.
\<close>

definition chop_in_y :: "rat \<times> rat \<Rightarrow> rat \<times> rat \<Rightarrow> rat \<Rightarrow> rat \<Rightarrow> rat \<times> rat \<Rightarrow> rat \<times> rat" where
  "chop_in_y p0 p1 ytop ybottom p =
     (let sect = (\<lambda>y. fst p0 + (y - snd p0) * (fst p1 - fst p0) / (snd p1 - snd p0))
      in if snd p < ytop then (sect ytop, ytop)
         else if snd p > ybottom then (sect ybottom, ybottom)
         else p)"

definition ClipLine_finite :: "rat \<times> rat \<Rightarrow> rat \<times> rat \<Rightarrow> rat \<Rightarrow> rat \<Rightarrow> rat \<Rightarrow> rat \<Rightarrow> bool \<Rightarrow>
    (rat \<times> rat) list" where
  "ClipLine_finite p0 p1 xleft ytop xright ybottom canCullToTheRight =
     (if max (snd p0) (snd p1) \<le> ytop \<or> min (snd p0) (snd p1) \<ge> ybottom then []
      else
        (let t0 = chop_in_y p0 p1 ytop ybottom p0;
             t1 = chop_in_y p0 p1 ytop ybottom p1;
             sect = (\<lambda>x. snd t0 + (x - fst t0) * (snd t1 - snd t0) / (fst t1 - fst t0))
         in if max (fst t0) (fst t1) \<le> xleft then [(xleft, snd t0), (xleft, snd t1)]
            else if min (fst t0) (fst t1) \<ge> xright then
              (if canCullToTheRight then [] else [(xright, snd t0), (xright, snd t1)])
            else
              (let reverse = \<not> fst p0 < fst p1;
                   lo = (if reverse then t1 else t0);
                   hi = (if reverse then t0 else t1);
                   result =
                     (if fst lo < xleft then [(xleft, snd lo), (xleft, sect xleft)] else [lo]) @
                     (if fst hi > xright then [(xright, sect xright), (xright, snd hi)] else [hi])
               in if reverse then rev result else result)))"

definition ClipLine_model :: "points \<Rightarrow> SkRect \<Rightarrow> bool \<Rightarrow> int \<times> points" where
  "ClipLine_model pts clip canCullToTheRight =
     (case (pts ! 0, pts ! 1, rLeft clip, rTop clip, rRight clip, rBottom clip) of
        ((Finite x0, Finite y0), (Finite x1, Finite y1), Finite l, Finite t, Finite r, Finite b) \<Rightarrow>
          (let lines = ClipLine_finite (x0, y0) (x1, y1) l t r b canCullToTheRight
           in (if lines = [] then 0 else int (length lines) - 1,
               map (\<lambda>p. (Finite (fst p), Finite (snd p))) lines))
      | _ \<Rightarrow> (0, []))"

text \<open>
  Modelled from the spec: an edge clipper, choppers and conic approximation for
  primitives that lie inside the clip and are monotone (section 6): the clipper hands
  the primitive back as its one segment, the choppers find no extremum (\<open>n = 0\<close>), and a
  conic is approximated by one quad on its own points.
\<close>

definition clipLine_inside :: "bool \<Rightarrow> SkPoint \<Rightarrow> SkPoint \<Rightarrow> SkRect \<Rightarrow> bool \<times> segments" where
  "clipLine_inside canCullToTheRight p0 p1 clip = (True, [(kLine_Verb, [p0, p1]), (kDone_Verb, [])])"

definition clipQuad_inside :: "bool \<Rightarrow> points \<Rightarrow> SkRect \<Rightarrow> bool \<times> segments" where
  "clipQuad_inside canCullToTheRight pts clip = (True, [(kQuad_Verb, take 3 pts), (kDone_Verb, [])])"

definition clipCubic_inside :: "bool \<Rightarrow> points \<Rightarrow> SkRect \<Rightarrow> bool \<times> segments" where
  "clipCubic_inside canCullToTheRight pts clip = (True, [(kCubic_Verb, take 4 pts), (kDone_Verb, [])])"

definition chop_monotone :: "points \<Rightarrow> int \<times> points" where
  "chop_monotone pts = (0, pts)"

definition computeQuads_single :: "points \<Rightarrow> SkScalar \<Rightarrow> SkScalar \<Rightarrow> int \<times> points" where
  "computeQuads_single pts w tol = (1, pts)"

definition example_collaborators :: collaborators where
  "example_collaborators =
     \<lparr>ClipLine = ClipLine_model, clipLine = clipLine_inside, clipQuad = clipQuad_inside,
      clipCubic = clipCubic_inside, SkChopQuadAtYExtrema = chop_monotone,
      SkChopCubicAtYExtrema = chop_monotone, computeQuads = computeQuads_single\<rparr>"

text \<open>The basic builder with \<open>fClipShift = 0\<close> on these, and a fresh builder object.\<close>

definition example_builder :: "SkEdge SkEdgeBuilder" where
  "example_builder = SkBasicEdgeBuilder 0 setLine_model no_curve_setup no_curve_setup"

definition fresh_builder :: "(SkEdge, 32 word) builder_state" where
  "fresh_builder = \<lparr>fList = [], fEdgeList = [], fAlloc = []\<rparr>"

definition pt :: "int \<Rightarrow> int \<Rightarrow> SkPoint" where
  "pt x y = (Finite (of_int x), Finite (of_int y))"

text \<open>
  A closed polygon with a notch, (5,-5) (5,15) (15,15) (12,5) (15,-5): not convex.  The
  verbs are those of the forced-close iteration: the last line returns to the start.
\<close>

definition notched_polygon :: SkPath where
  "notched_polygon =
     \<lparr>iter = [(kMove_Verb, [pt 5 (-5)], Finite 1),
              (kLine_Verb, [pt 5 (-5), pt 5 15], Finite 1),
              (kLine_Verb, [pt 5 15, pt 15 15], Finite 1),
              (kLine_Verb, [pt 15 15, pt 12 5], Finite 1),
              (kLine_Verb, [pt 12 5, pt 15 (-5)], Finite 1),
              (kLine_Verb, [pt 15 (-5), pt 5 (-5)], Finite 1),
              (kClose_Verb, [], Finite 1),
              (kDone_Verb, [], Finite 1)],
      countPoints = 5, isConvex = False, getSegmentMasks = kLine_SegmentMask\<rparr>"

text \<open>A triangle (0,0) (10,0) (5,10): convex.\<close>

definition triangle :: SkPath where
  "triangle =
     \<lparr>iter = [(kMove_Verb, [pt 0 0], Finite 1),
              (kLine_Verb, [pt 0 0, pt 10 0], Finite 1),
              (kLine_Verb, [pt 10 0, pt 5 10], Finite 1),
              (kLine_Verb, [pt 5 10, pt 0 0], Finite 1),
              (kClose_Verb, [], Finite 1),
              (kDone_Verb, [], Finite 1)],
      countPoints = 3, isConvex = True, getSegmentMasks = kLine_SegmentMask\<rparr>"

text \<open>A path of one quad whose control point has a NaN coordinate (segment mask \<open>kQuad\<close>).\<close>

definition nan_quad :: SkPath where
  "nan_quad =
     \<lparr>iter = [(kMove_Verb, [pt 1 1], Finite 1),
              (kQuad_Verb, [pt 1 1, (NaN, Finite 2), pt 3 5], Finite 1),
              (kLine_Verb, [pt 3 5, pt 1 1], Finite 1),
              (kClose_Verb, [], Finite 1),
              (kDone_Verb, [], Finite 1)],
      countPoints = 3, isConvex = False, getSegmentMasks = 3\<rparr>"


text \<open>
  A path that reports \<open>0x60000000\<close> points (its verbs are not written out: \<open>buildPoly\<close>
  is run on it only where it returns before reading them).
\<close>

definition huge_path :: SkPath where
  "huge_path = \<lparr>iter = [], countPoints = 0x60000000, isConvex = True,
     getSegmentMasks = kLine_SegmentMask\<rparr>"

section \<open>Properties of the filter cache\<close>

lemma sum_list_filter_key:
  fixes g :: "'a \<Rightarrow> 'w::len word"
  shows "distinct (map f xs) \<Longrightarrow> v \<in> set xs \<Longrightarrow>
    sum_list (map g (filter (\<lambda>e. f e \<noteq> f v) xs)) = sum_list (map g xs) - g v"
proof (induction xs)
  case Nil
  then show ?case by simp
next
  case (Cons x xs)
  show ?case
  proof (cases "x = v")
    case True
    with Cons.prems have "filter (\<lambda>e. f e \<noteq> f v) xs = xs"
      by (auto simp: filter_id_conv image_iff)
    with True show ?thesis by simp
  next
    case False
    with Cons.prems have "v \<in> set xs" "f x \<noteq> f v"
      by (auto simp: image_iff)
    with Cons show ?thesis by simp
  qed
qed

lemma cache_inv_removeInternal:
  "cache_inv c \<Longrightarrow> v \<in> set (fLRU c) \<Longrightarrow> cache_inv (removeInternal c v)"
  by (simp add: cache_inv_def removeInternal_def sum_list_filter_key distinct_map_filter)

lemma evict_keeps_head:
  "fLRU c = v # rest \<Longrightarrow> fKey v = key \<Longrightarrow> key \<notin> fKey ` set rest \<Longrightarrow>
   \<exists>c' rest'. evict c key = Some c' \<and> fLRU c' = v # rest' \<and> set rest' \<subseteq> set rest \<and>
      fMaxBytes c' = fMaxBytes c \<and> (fCurrentBytes c' \<le> fMaxBytes c' \<or> rest' = [])"
proof (induction c key arbitrary: rest rule: evict.induct)
  case (1 c key)
  show ?case
  proof (cases "fCurrentBytes c > fMaxBytes c")
    case False
    then have "evict c key = Some c"
      by (subst evict.simps) auto
    moreover from False have "fCurrentBytes c \<le> fMaxBytes c"
      by simp
    ultimately show ?thesis using "1.prems" by simp
  next
    case over: True
    show ?thesis
    proof (cases "rest = []")
      case True
      with over "1.prems" have "evict c key = Some c"
        by (simp add: evict.simps [of c key])
      with True "1.prems" show ?thesis by simp
    next
      case False
      define t where "t = last (fLRU c)"
      from False "1.prems" have t1: "t = last rest" "t \<in> set rest"
        by (auto simp: t_def)
      with "1.prems" have "fKey t \<noteq> key"
        by (metis imageI)
      note t = t1 this
      let ?c = "removeInternal c t"
      have l: "fLRU ?c = v # filter (\<lambda>e. fKey e \<noteq> fKey t) rest"
        using t "1.prems" by (simp add: removeInternal_def)
      have "\<exists>c' rest'. evict ?c key = Some c' \<and> fLRU c' = v # rest' \<and>
          set rest' \<subseteq> set (filter (\<lambda>e. fKey e \<noteq> fKey t) rest) \<and>
          fMaxBytes c' = fMaxBytes ?c \<and>
          (fCurrentBytes c' \<le> fMaxBytes c' \<or> rest' = [])"
        using over "1.prems" t l unfolding t_def
        by (intro "1.IH") auto
      moreover have "evict c key = evict ?c key"
        using over "1.prems" t by (simp add: evict.simps [of c key] t_def)
      moreover have "fMaxBytes ?c = fMaxBytes c"
        by (simp add: removeInternal_def)
      ultimately show ?thesis by auto
    qed
  qed
qed

lemma evict_inv:
  "evict c key = Some c' \<Longrightarrow> cache_inv c \<Longrightarrow> cache_inv c'"
proof (induction c key rule: evict.induct)
  case (1 c key)
  show ?case
  proof (cases "fCurrentBytes c > fMaxBytes c \<and> fKey (last (fLRU c)) \<noteq> key")
    case False
    with "1.prems" show ?thesis
      by (auto simp: evict.simps [of c key] split: if_splits)
  next
    case True
    with "1.prems" have ne: "fLRU c \<noteq> []"
      by (auto simp: evict.simps [of c key] split: if_splits)
    with True "1.prems" have "evict (removeInternal c (last (fLRU c))) key = Some c'"
      by (simp add: evict.simps [of c key])
    moreover have "cache_inv (removeInternal c (last (fLRU c)))"
      using ne "1.prems" by (simp add: cache_inv_removeInternal)
    ultimately show ?thesis using True ne by (intro "1.IH") auto
  qed
qed

lemma lookup_find_Some:
  "lookup_find c key = Some v \<Longrightarrow> v \<in> set (fLRU c) \<and> fKey v = key"
  by (auto simp: lookup_find_def find_Some_iff)

lemma lookup_find_None:
  "lookup_find c key = None \<Longrightarrow> filter (\<lambda>e. fKey e \<noteq> key) (fLRU c) = fLRU c"
  by (auto simp: lookup_find_def find_None_iff filter_id_conv)

text \<open>The state of \<open>set\<close> before its eviction loop.\<close>

lemma set_entry_unfold:
  "set_entry c key img offset =
     evict (c\<lparr>fLRU := \<lparr>fKey = key, fImage = img, fOffset = offset\<rparr> #
                filter (\<lambda>e. fKey e \<noteq> key) (fLRU c),
            fCurrentBytes := fCurrentBytes c
              - (case lookup_find c key of Some old \<Rightarrow> getSize (fImage old) | None \<Rightarrow> 0)
              + getSize img\<rparr>) key"
proof (cases "lookup_find c key")
  case None
  then show ?thesis
    by (simp add: set_entry_def lookup_find_None)
next
  case (Some old)
  with lookup_find_Some [OF Some] show ?thesis
    by (simp add: set_entry_def removeInternal_def)
qed

lemma set_entry_head:
  "\<exists>c' rest. set_entry c key img offset = Some c' \<and>
      fLRU c' = \<lparr>fKey = key, fImage = img, fOffset = offset\<rparr> # rest \<and>
      set rest \<subseteq> set (filter (\<lambda>e. fKey e \<noteq> key) (fLRU c)) \<and>
      fMaxBytes c' = fMaxBytes c \<and> (fCurrentBytes c' \<le> fMaxBytes c' \<or> rest = [])"
  unfolding set_entry_unfold
  using evict_keeps_head [of "(c\<lparr>fLRU := \<lparr>fKey = key, fImage = img, fOffset = offset\<rparr> #
                filter (\<lambda>e. fKey e \<noteq> key) (fLRU c),
            fCurrentBytes := fCurrentBytes c
              - (case lookup_find c key of Some old \<Rightarrow> getSize (fImage old) | None \<Rightarrow> 0)
              + getSize img\<rparr>)" "\<lparr>fKey = key, fImage = img, fOffset = offset\<rparr>"
      "filter (\<lambda>e. fKey e \<noteq> key) (fLRU c)" key]
  by auto

lemma set_entry_inv:
  assumes "cache_inv c" "set_entry c key img offset = Some c'"
  shows "cache_inv c'"
proof -
  have "cache_inv (c\<lparr>fLRU := \<lparr>fKey = key, fImage = img, fOffset = offset\<rparr> #
                filter (\<lambda>e. fKey e \<noteq> key) (fLRU c),
            fCurrentBytes := fCurrentBytes c
              - (case lookup_find c key of Some old \<Rightarrow> getSize (fImage old) | None \<Rightarrow> 0)
              + getSize img\<rparr>)"
  proof (cases "lookup_find c key")
    case None
    moreover from None have "key \<notin> fKey ` set (fLRU c)"
      by (auto simp: lookup_find_def find_None_iff)
    ultimately show ?thesis using assms(1)
      by (simp add: cache_inv_def lookup_find_None)
  next
    case (Some old)
    with assms(1) lookup_find_Some [OF Some] show ?thesis
      by (auto simp: cache_inv_def distinct_map_filter sum_list_filter_key)
  qed
  with assms(2) show ?thesis
    unfolding set_entry_unfold by (rule evict_inv)
qed

text \<open>
  C2.  \<open>set(key, image, offset)\<close> returns on every cache; afterwards the entry just
  inserted is at the head of the list (it is never evicted by its own insertion), every
  other entry was in the cache before under another key (an old entry under \<open>key\<close> is
  gone), and either \<open>fCurrentBytes \<le> fMaxBytes\<close> or the new entry is the only one.  If
  the cache satisfied the invariant it satisfies it again, and the byte count is the
  size of the new entry plus the sizes of the entries that remain: the bytes of an old
  entry under \<open>key\<close> are no longer counted.
\<close>

theorem set_budget_invariant:
  "\<exists>c' rest. set_entry c key img offset = Some c' \<and>
      fLRU c' = \<lparr>fKey = key, fImage = img, fOffset = offset\<rparr> # rest \<and>
      set rest \<subseteq> set (filter (\<lambda>e. fKey e \<noteq> key) (fLRU c)) \<and>
      fMaxBytes c' = fMaxBytes c \<and>
      (fCurrentBytes c' \<le> fMaxBytes c' \<or> rest = []) \<and>
      (cache_inv c \<longrightarrow> cache_inv c' \<and>
         fCurrentBytes c' = getSize img + sum_list (map (\<lambda>e. getSize (fImage e)) rest))"
proof -
  from set_entry_head [of c key img offset] obtain c' rest where r:
    "set_entry c key img offset = Some c'"
    "fLRU c' = \<lparr>fKey = key, fImage = img, fOffset = offset\<rparr> # rest"
    "set rest \<subseteq> set (filter (\<lambda>e. fKey e \<noteq> key) (fLRU c))"
    "fMaxBytes c' = fMaxBytes c" "fCurrentBytes c' \<le> fMaxBytes c' \<or> rest = []"
    by blast
  have "cache_inv c' \<and>
      fCurrentBytes c' = getSize img + sum_list (map (\<lambda>e. getSize (fImage e)) rest)"
    if "cache_inv c"
  proof -
    from that r(1) have inv: "cache_inv c'"
      by (rule set_entry_inv)
    with r(2) show ?thesis
      by (simp add: cache_inv_def)
  qed
  with r show ?thesis by blast
qed

theorem set_budget_invariant_witness:
  "cache_inv \<lparr>fLRU = [\<lparr>fKey = 1::nat, fImage = \<lparr>uniqueID = 7, subset = MakeWH 4 4,
       getSize = 100::64 word\<rparr>, fOffset = (0, 0)\<rparr>], fMaxBytes = 300, fCurrentBytes = 100\<rparr> \<and>
   (\<exists>c' rest.
      set_entry \<lparr>fLRU = [\<lparr>fKey = 1::nat, fImage = \<lparr>uniqueID = 7, subset = MakeWH 4 4,
          getSize = 100::64 word\<rparr>, fOffset = (0, 0)\<rparr>], fMaxBytes = 300, fCurrentBytes = 100\<rparr>
        1 \<lparr>uniqueID = 8, subset = MakeWH 2 2, getSize = 50\<rparr> (3, 4) = Some c' \<and>
      fLRU c' = \<lparr>fKey = 1, fImage = \<lparr>uniqueID = 8, subset = MakeWH 2 2, getSize = 50\<rparr>,
          fOffset = (3, 4)\<rparr> # rest \<and>
      cache_inv c' \<and> fCurrentBytes c' = 50 \<and> rest = [])"
proof -
  let ?c = "\<lparr>fLRU = [\<lparr>fKey = 1::nat, fImage = \<lparr>uniqueID = 7, subset = MakeWH 4 4,
       getSize = 100::64 word\<rparr>, fOffset = (0, 0)\<rparr>], fMaxBytes = 300, fCurrentBytes = 100\<rparr>"
  have h: "cache_inv ?c"
    by (simp add: cache_inv_def)
  from set_budget_invariant [of ?c 1 "\<lparr>uniqueID = 8, subset = MakeWH 2 2, getSize = 50\<rparr>" "(3, 4)"]
  show ?thesis using h by auto
qed

subsection \<open>The eviction order\<close>

lemma small_unat:
  assumes "9 \<le> LENGTH('w::len)" "n < 512"
  shows "unat (of_nat n :: 'w word) = n"
proof -
  have "(2::nat) ^ 9 \<le> 2 ^ LENGTH('w)"
    using assms(1) by (rule power_increasing) simp
  with assms(2) have "n < 2 ^ LENGTH('w)" by simp
  then show ?thesis by (simp add: unsigned_of_nat take_bit_nat_eq_self)
qed

lemma budget_facts:
  assumes "9 \<le> LENGTH('w::len)"
  shows "\<not> (300::'w word) < 100" "\<not> (300::'w word) < 200" "(300::'w word) < 400"
proof -
  have u: "unat (100::'w word) = 100" "unat (200::'w word) = 200" "unat (300::'w word) = 300"
    "unat (400::'w word) = 400"
    using small_unat [OF assms, of 100] small_unat [OF assms, of 200]
      small_unat [OF assms, of 300] small_unat [OF assms, of 400] by simp_all
  show "\<not> (300::'w word) < 100" "\<not> (300::'w word) < 200" "(300::'w word) < 400"
    unfolding word_less_nat_alt u by simp_all
qed

text \<open>
  C4.  A cache with \<open>maxBytes = 300\<close>; four distinct keys and four images of 100 bytes
  each (\<open>size_t\<close> of at least 9 bits, so that the numbers are what they say).  After
  \<open>set\<close> of K1, K2, K3, \<open>get(K1)\<close> (a hit, returning K1's image and offset) and \<open>set\<close> of
  K4, the list from most to least recently used is K4, K1, K3: K2 has been evicted and
  K1, K3, K4 are found.
\<close>

theorem lru_eviction_order:
  fixes k1 k2 k3 k4 :: 'k
    and i1 i2 i3 i4 :: "'w::len word SkSpecialImage"
  assumes len: "9 \<le> LENGTH('w)"
    and keys: "distinct [k1, k2, k3, k4]"
    and sizes: "getSize i1 = 100" "getSize i2 = 100" "getSize i3 = 100" "getSize i4 = 100"
  shows "\<exists>c1 c2 c3 c4 c5.
      set_entry (Create 300) k1 i1 o1 = Some c1 \<and>
      set_entry c1 k2 i2 o2 = Some c2 \<and>
      set_entry c2 k3 i3 o3 = Some c3 \<and>
      get c3 k1 = (Some (i1, o1), c4) \<and>
      set_entry c4 k4 i4 o4 = Some c5 \<and>
      map fKey (fLRU c5) = [k4, k1, k3] \<and>
      lookup_find c5 k2 = None \<and>
      lookup_find c5 k1 = Some \<lparr>fKey = k1, fImage = i1, fOffset = o1\<rparr> \<and>
      lookup_find c5 k3 = Some \<lparr>fKey = k3, fImage = i3, fOffset = o3\<rparr> \<and>
      lookup_find c5 k4 = Some \<lparr>fKey = k4, fImage = i4, fOffset = o4\<rparr> \<and>
      fCurrentBytes c5 = 300"
proof -
  note b = budget_facts [OF len]
  from keys have ne: "k1 \<noteq> k2" "k1 \<noteq> k3" "k1 \<noteq> k4" "k2 \<noteq> k3" "k2 \<noteq> k4" "k3 \<noteq> k4"
    "k2 \<noteq> k1" "k3 \<noteq> k1" "k4 \<noteq> k1" "k3 \<noteq> k2" "k4 \<noteq> k2" "k4 \<noteq> k3"
    by auto
  let ?v1 = "\<lparr>fKey = k1, fImage = i1, fOffset = o1\<rparr>"
  let ?v2 = "\<lparr>fKey = k2, fImage = i2, fOffset = o2\<rparr>"
  let ?v3 = "\<lparr>fKey = k3, fImage = i3, fOffset = o3\<rparr>"
  let ?v4 = "\<lparr>fKey = k4, fImage = i4, fOffset = o4\<rparr>"
  let ?c1 = "\<lparr>fLRU = [?v1], fMaxBytes = 300, fCurrentBytes = 100\<rparr>"
  let ?c2 = "\<lparr>fLRU = [?v2, ?v1], fMaxBytes = 300, fCurrentBytes = 200\<rparr>"
  let ?c3 = "\<lparr>fLRU = [?v3, ?v2, ?v1], fMaxBytes = 300, fCurrentBytes = 300\<rparr>"
  let ?c4 = "\<lparr>fLRU = [?v1, ?v3, ?v2], fMaxBytes = 300, fCurrentBytes = 300\<rparr>"
  let ?c5 = "\<lparr>fLRU = [?v4, ?v1, ?v3], fMaxBytes = 300, fCurrentBytes = 300\<rparr>"
  have s1: "set_entry (Create 300) k1 i1 o1 = Some ?c1"
    using b sizes by (simp add: set_entry_def Create_def lookup_find_def evict.simps)
  have s2: "set_entry ?c1 k2 i2 o2 = Some ?c2"
    using b sizes ne by (simp add: set_entry_def lookup_find_def evict.simps)
  have s3: "set_entry ?c2 k3 i3 o3 = Some ?c3"
    using b sizes ne by (simp add: set_entry_def lookup_find_def evict.simps)
  have g: "get ?c3 k1 = (Some (i1, o1), ?c4)"
    using ne by (simp add: get_def lookup_find_def)
  have s4: "set_entry ?c4 k4 i4 o4 = Some ?c5"
    using b sizes ne
    by (simp add: set_entry_def lookup_find_def evict.simps [of "_\<lparr>fCurrentBytes := _\<rparr>"]
        evict.simps [of "\<lparr>fLRU = _, fMaxBytes = _, fCurrentBytes = _\<rparr>"] removeInternal_def)
  have f: "map fKey (fLRU ?c5) = [k4, k1, k3]" "lookup_find ?c5 k2 = None"
    "lookup_find ?c5 k1 = Some ?v1" "lookup_find ?c5 k3 = Some ?v3"
    "lookup_find ?c5 k4 = Some ?v4" "fCurrentBytes ?c5 = 300"
    using ne by (simp_all add: lookup_find_def)
  show ?thesis
    apply (rule exI [of _ ?c1])
    apply (rule exI [of _ ?c2])
    apply (rule exI [of _ ?c3])
    apply (rule exI [of _ ?c4])
    apply (rule exI [of _ ?c5])
    apply (intro conjI s1 s2 s3 g s4 f)
    done
qed

theorem lru_eviction_order_witness:
  "9 \<le> LENGTH(64) \<and> distinct [1::nat, 2, 3, 4] \<and>
   (\<exists>c1 c2 c3 c4 c5.
      set_entry (Create (300::64 word)) (1::nat) \<lparr>uniqueID = 11, subset = MakeWH 5 5, getSize = 100\<rparr> (0, 0) = Some c1 \<and>
      set_entry c1 2 \<lparr>uniqueID = 12, subset = MakeWH 5 5, getSize = 100\<rparr> (0, 0) = Some c2 \<and>
      set_entry c2 3 \<lparr>uniqueID = 13, subset = MakeWH 5 5, getSize = 100\<rparr> (0, 0) = Some c3 \<and>
      get c3 1 = (Some (\<lparr>uniqueID = 11, subset = MakeWH 5 5, getSize = 100\<rparr>, (0, 0)), c4) \<and>
      set_entry c4 4 \<lparr>uniqueID = 14, subset = MakeWH 5 5, getSize = 100\<rparr> (0, 0) = Some c5 \<and>
      map fKey (fLRU c5) = [4, 1, 3] \<and> lookup_find c5 2 = None)"
proof -
  let ?i1 = "\<lparr>uniqueID = 11, subset = MakeWH 5 5, getSize = 100::64 word\<rparr>"
  let ?i2 = "\<lparr>uniqueID = 12, subset = MakeWH 5 5, getSize = 100::64 word\<rparr>"
  let ?i3 = "\<lparr>uniqueID = 13, subset = MakeWH 5 5, getSize = 100::64 word\<rparr>"
  let ?i4 = "\<lparr>uniqueID = 14, subset = MakeWH 5 5, getSize = 100::64 word\<rparr>"
  have h: "9 \<le> LENGTH(64)" "distinct [1::nat, 2, 3, 4]"
    by simp_all
  have s: "getSize ?i1 = 100" "getSize ?i2 = 100" "getSize ?i3 = 100" "getSize ?i4 = 100"
    by simp_all
  from lru_eviction_order [OF h s, of "(0, 0)" "(0, 0)" "(0, 0)" "(0, 0)"]
  obtain c1 c2 c3 c4 c5 where
    "set_entry (Create (300::64 word)) (1::nat) ?i1 (0, 0) = Some c1"
    "set_entry c1 2 ?i2 (0, 0) = Some c2"
    "set_entry c2 3 ?i3 (0, 0) = Some c3"
    "get c3 1 = (Some (?i1, (0, 0)), c4)"
    "set_entry c4 4 ?i4 (0, 0) = Some c5"
    "map fKey (fLRU c5) = [4, 1, 3]" "lookup_find c5 2 = None"
    by (elim exE conjE) (rule that)
  then have "\<exists>c1 c2 c3 c4 c5.
      set_entry (Create (300::64 word)) (1::nat) ?i1 (0, 0) = Some c1 \<and>
      set_entry c1 2 ?i2 (0, 0) = Some c2 \<and>
      set_entry c2 3 ?i3 (0, 0) = Some c3 \<and>
      get c3 1 = (Some (?i1, (0, 0)), c4) \<and>
      set_entry c4 4 ?i4 (0, 0) = Some c5 \<and>
      map fKey (fLRU c5) = [4, 1, 3] \<and> lookup_find c5 2 = None"
    by (intro exI conjI)
  with h show ?thesis by (intro conjI)
qed

subsection \<open>purge\<close>

text \<open>
  C9.  \<open>purge\<close> stops as soon as \<open>fCurrentBytes\<close> is 0.  A cache holding one entry whose
  image has size 0 (made by \<open>set\<close> on the empty cache) has \<open>fCurrentBytes = 0\<close>: \<open>purge\<close>
  returns at once and the entry is still in the cache.
\<close>

theorem purge_leaves_zero_size_entry:
  "set_entry (Create (300::64 word)) (1::nat) \<lparr>uniqueID = 11, subset = MakeWH 0 0, getSize = 0\<rparr> (0, 0)
     = Some \<lparr>fLRU = [\<lparr>fKey = 1, fImage = \<lparr>uniqueID = 11, subset = MakeWH 0 0, getSize = 0\<rparr>,
                       fOffset = (0, 0)\<rparr>], fMaxBytes = 300, fCurrentBytes = 0\<rparr> \<and>
   purge \<lparr>fLRU = [\<lparr>fKey = 1::nat, fImage = \<lparr>uniqueID = 11, subset = MakeWH 0 0, getSize = 0::64 word\<rparr>,
                       fOffset = (0, 0)\<rparr>], fMaxBytes = 300, fCurrentBytes = 0\<rparr>
     = Some \<lparr>fLRU = [\<lparr>fKey = 1, fImage = \<lparr>uniqueID = 11, subset = MakeWH 0 0, getSize = 0\<rparr>,
                       fOffset = (0, 0)\<rparr>], fMaxBytes = 300, fCurrentBytes = 0\<rparr>"
  by (simp add: set_entry_def Create_def lookup_find_def evict.simps purge.simps)

section \<open>Properties of filterImage\<close>

lemmas ex_defs = example_node_def example_src_def example_result_def example_context_def
  example_state_def identity_matrix_def make_key_def MakeWH_def Create_def Let_def

lemma get_hit_head:
  "fLRU c = v # rest \<Longrightarrow> fKey v = key \<Longrightarrow> get c key = (Some (fImage v, fOffset v), c)"
  by (simp add: get_def lookup_find_def)

lemma get_hit:
  assumes "get c key = (Some (img, off), c')"
  shows "\<exists>v rest. fLRU c' = v # rest \<and> fKey v = key \<and> fImage v = img \<and> fOffset v = off"
proof (cases "lookup_find c key")
  case None
  with assms show ?thesis by (simp add: get_def)
next
  case (Some v)
  from lookup_find_Some [OF Some] obtain x xs where "fLRU c = x # xs" "fKey v = key"
    by (cases "fLRU c") auto
  moreover from Some this have "fKey x = key \<Longrightarrow> x = v"
    by (simp add: lookup_find_def)
  ultimately show ?thesis using assms Some
    by (auto simp: get_def split: if_splits)
qed



text \<open>
  C3, as the code has it.  With a cache in the context, if a call of \<open>filterImage\<close>
  returns a non-null result, then a second call with the same fingerprint (same node,
  equal key) returns that result and offset from the cache and leaves the state as it
  is, the count of \<open>onFilterImage\<close> calls included; the first call has invoked
  \<open>onFilterImage\<close> once if its lookup missed and not at all if it hit.
\<close>

theorem filterImage_memoized:
  assumes cache: "has_cache context" "has_cache context'"
    and key: "make_key node src' context' = make_key node src context"
    and first: "filterImage compute node src context offset st = Some (Some result, off, st1)"
  shows "filterImage compute node src' context' offset' st1 = Some (Some result, off, st1) \<and>
     compute_calls st1 =
       compute_calls st + (if fst (get (the_cache st) (make_key node src context)) = None then 1 else 0)"
proof -
  define k where "k = make_key node src context"
  have head: "\<exists>v rest. fLRU (the_cache st1) = v # rest \<and> fKey v = k \<and> fImage v = result \<and>
      fOffset v = off"
    and calls: "compute_calls st1 =
       compute_calls st + (if fst (get (the_cache st) k) = None then 1 else 0)"
  proof -
    obtain hit c where g: "get (the_cache st) k = (hit, c)"
      by (cases "get (the_cache st) k")
    show "\<exists>v rest. fLRU (the_cache st1) = v # rest \<and> fKey v = k \<and> fImage v = result \<and>
      fOffset v = off"
    proof (cases hit)
      case (Some p)
      with g first cache have "get (the_cache st) k = (Some (result, off), the_cache st1)"
        by (auto simp: filterImage_def k_def Let_def split: prod.splits)
      then show ?thesis by (rule get_hit)
    next
      case None
      obtain r o' c2 ks where c: "compute src context offset c (fCacheKeys st) = (r, o', c2, ks)"
        by (cases "compute src context offset c (fCacheKeys st)")
      with None g first cache obtain c3 where
        "set_entry c2 k result off = Some c3" "the_cache st1 = c3"
        by (auto simp: filterImage_def k_def Let_def split: option.splits)
      with set_entry_head [of c2 k result off] show ?thesis by auto
    qed
    show "compute_calls st1 =
       compute_calls st + (if fst (get (the_cache st) k) = None then 1 else 0)"
      using g first cache
      by (auto simp: filterImage_def k_def Let_def split: prod.splits option.splits)
  qed
  from head obtain v rest where v: "fLRU (the_cache st1) = v # rest" "fKey v = k"
    "fImage v = result" "fOffset v = off"
    by blast
  from get_hit_head [OF v(1,2)] v(3,4) have "get (the_cache st1) k = (Some (result, off), the_cache st1)"
    by simp
  with cache key have "filterImage compute node src' context' offset' st1 = Some (Some result, off, st1)"
    by (simp add: filterImage_def k_def)
  with calls show ?thesis by (simp add: k_def)
qed

theorem filterImage_memoized_witness:
  "has_cache (example_context 10) \<and>
   filterImage (constant_filter example_result) example_node example_src (example_context 10) (0, 0)
       (example_state 300)
     = Some (Some example_result, (0, 0),
         \<lparr>the_cache = \<lparr>fLRU = [\<lparr>fKey = make_key example_node example_src (example_context 10),
              fImage = example_result, fOffset = (0, 0)\<rparr>], fMaxBytes = 300, fCurrentBytes = 100\<rparr>,
          fCacheKeys = [make_key example_node example_src (example_context 10)],
          compute_calls = 1\<rparr>) \<and>
   filterImage (constant_filter example_result) example_node example_src (example_context 10) (7, 7)
       \<lparr>the_cache = \<lparr>fLRU = [\<lparr>fKey = make_key example_node example_src (example_context 10),
              fImage = example_result, fOffset = (0, 0)\<rparr>], fMaxBytes = 300, fCurrentBytes = 100\<rparr>,
          fCacheKeys = [make_key example_node example_src (example_context 10)],
          compute_calls = 1\<rparr>
     = Some (Some example_result, (0, 0),
         \<lparr>the_cache = \<lparr>fLRU = [\<lparr>fKey = make_key example_node example_src (example_context 10),
              fImage = example_result, fOffset = (0, 0)\<rparr>], fMaxBytes = 300, fCurrentBytes = 100\<rparr>,
          fCacheKeys = [make_key example_node example_src (example_context 10)],
          compute_calls = 1\<rparr>)"
proof -
  let ?k = "make_key example_node example_src (example_context 10)"
  let ?st1 = "\<lparr>the_cache = \<lparr>fLRU = [\<lparr>fKey = ?k, fImage = example_result, fOffset = (0, 0)\<rparr>],
      fMaxBytes = 300, fCurrentBytes = 100\<rparr>, fCacheKeys = [?k], compute_calls = 1\<rparr>"
  have c: "has_cache (example_context 10)"
    by (simp add: example_context_def)
  have f: "filterImage (constant_filter example_result) example_node example_src (example_context 10)
      (0, 0) (example_state 300) = Some (Some example_result, (0, 0), ?st1)"
    by (simp add: filterImage_def constant_filter_def get_def lookup_find_def set_entry_def
        evict.simps ex_defs)
  from filterImage_memoized [OF c c refl f, of "(7, 7)"]
  have "filterImage (constant_filter example_result) example_node example_src (example_context 10)
      (7, 7) ?st1 = Some (Some example_result, (0, 0), ?st1)"
    by (rule conjunct1)
  with c f show ?thesis
    by (intro conjI)
qed

text \<open>
  C3 as stated fails when the filter fails: a null result is not cached, and the second
  call invokes \<open>onFilterImage\<close> again (the counter goes from 0 to 1 to 2).
\<close>

theorem filterImage_failure_recomputed:
  "filterImage failing_filter example_node example_src (example_context 10) (0, 0) (example_state 300)
     = Some (None, (0, 0), (example_state 300)\<lparr>compute_calls := 1\<rparr>) \<and>
   filterImage failing_filter example_node example_src (example_context 10) (0, 0)
       ((example_state 300)\<lparr>compute_calls := 1\<rparr>)
     = Some (None, (0, 0), (example_state 300)\<lparr>compute_calls := 2\<rparr>)"
  by (simp add: filterImage_def failing_filter_def get_def lookup_find_def ex_defs)




section \<open>Properties of CropRect::applyTo\<close>

text \<open>
  C5.  \<open>applyTo\<close> with \<open>flags == 0\<close> returns the image bounds unchanged; with all four
  edge flags set it returns the rounded-out transformed crop rectangle; with only
  \<open>kHasWidth_CropEdge\<close> it changes \<open>fRight\<close> alone, to the input's left plus the width
  of the rounded-out transformed crop; and whenever the width flag is set, the result's
  right is the result's left plus that width, where the result's left is the crop's
  left if \<open>kHasLeft_CropEdge\<close> is set and the input's left otherwise.
\<close>

theorem applyTo_decomposition:
  fixes crop :: "'r CropRect" and mapRect :: "'m \<Rightarrow> 'r \<Rightarrow> 'r"
  shows "(fFlags crop = 0 \<longrightarrow> applyTo mapRect roundOut crop bounds m = bounds) \<and>
    (fFlags crop AND kHasLeft_CropEdge \<noteq> 0 \<and> fFlags crop AND kHasTop_CropEdge \<noteq> 0 \<and>
     fFlags crop AND kHasWidth_CropEdge \<noteq> 0 \<and> fFlags crop AND kHasHeight_CropEdge \<noteq> 0 \<longrightarrow>
       applyTo mapRect roundOut crop bounds m = roundOut (mapRect m (fRect crop))) \<and>
    (fFlags crop = kHasWidth_CropEdge \<longrightarrow>
       applyTo mapRect roundOut crop bounds m =
         bounds\<lparr>fRight := fLeft bounds + width (roundOut (mapRect m (fRect crop)))\<rparr>) \<and>
    (fFlags crop AND kHasWidth_CropEdge \<noteq> 0 \<longrightarrow>
       fRight (applyTo mapRect roundOut crop bounds m) =
         fLeft (applyTo mapRect roundOut crop bounds m) + width (roundOut (mapRect m (fRect crop))) \<and>
       fLeft (applyTo mapRect roundOut crop bounds m) =
         (if fFlags crop AND kHasLeft_CropEdge \<noteq> 0 then fLeft (roundOut (mapRect m (fRect crop)))
          else fLeft bounds))"
proof (intro conjI impI)
  show "applyTo mapRect roundOut crop bounds m = bounds" if "fFlags crop = 0"
    using that by (simp add: applyTo_def)
  show "applyTo mapRect roundOut crop bounds m = roundOut (mapRect m (fRect crop))"
    if "fFlags crop AND kHasLeft_CropEdge \<noteq> 0 \<and> fFlags crop AND kHasTop_CropEdge \<noteq> 0 \<and>
     fFlags crop AND kHasWidth_CropEdge \<noteq> 0 \<and> fFlags crop AND kHasHeight_CropEdge \<noteq> 0"
  proof -
    from that have "fFlags crop \<noteq> 0" by auto
    with that show ?thesis
      by (cases "roundOut (mapRect m (fRect crop))"; cases bounds)
         (simp add: applyTo_def Let_def width_def height_def)
  qed
  show "applyTo mapRect roundOut crop bounds m =
         bounds\<lparr>fRight := fLeft bounds + width (roundOut (mapRect m (fRect crop)))\<rparr>"
    if "fFlags crop = kHasWidth_CropEdge"
    using that
    by (simp add: applyTo_def Let_def kHasWidth_CropEdge_def kHasLeft_CropEdge_def
        kHasTop_CropEdge_def kHasHeight_CropEdge_def)
  show "fRight (applyTo mapRect roundOut crop bounds m) =
         fLeft (applyTo mapRect roundOut crop bounds m) + width (roundOut (mapRect m (fRect crop)))"
    if "fFlags crop AND kHasWidth_CropEdge \<noteq> 0"
  proof -
    from that have "fFlags crop \<noteq> 0" by auto
    with that show ?thesis
      by (simp add: applyTo_def Let_def)
  qed
  show "fLeft (applyTo mapRect roundOut crop bounds m) =
         (if fFlags crop AND kHasLeft_CropEdge \<noteq> 0 then fLeft (roundOut (mapRect m (fRect crop)))
          else fLeft bounds)"
    if "fFlags crop AND kHasWidth_CropEdge \<noteq> 0"
  proof -
    from that have "fFlags crop \<noteq> 0" by auto
    with that show ?thesis
      by (simp add: applyTo_def Let_def)
  qed
qed

lemma example_roundOut:
  "roundOut_finite (mapRect_identity identity_matrix (fRect (example_crop f))) =
     \<lparr>fLeft = 4, fTop = 1, fRight = 11, fBottom = 21\<rparr>"
proof -
  have "\<lfloor>(9/2)::rat\<rfloor> = 4" "\<lfloor>(3/2)::rat\<rfloor> = 1"
    by (simp_all add: floor_eq_iff)
  moreover have "\<lceil>(21/2)::rat\<rceil> = 11" "\<lceil>(41/2)::rat\<rceil> = 21"
    by (simp_all add: ceiling_eq_iff)
  ultimately show ?thesis
    by (simp add: roundOut_finite_def mapRect_identity_def example_crop_def scalar_floor_def
        scalar_ceil_def)
qed

theorem applyTo_decomposition_witness:
  "fFlags (example_crop 0) = 0 \<and>
   applyTo mapRect_identity roundOut_finite (example_crop 0) example_bounds identity_matrix
     = example_bounds \<and>
   applyTo mapRect_identity roundOut_finite (example_crop 0xF) example_bounds identity_matrix
     = \<lparr>fLeft = 4, fTop = 1, fRight = 11, fBottom = 21\<rparr> \<and>
   fFlags (example_crop 4) = kHasWidth_CropEdge \<and>
   applyTo mapRect_identity roundOut_finite (example_crop 4) example_bounds identity_matrix
     = \<lparr>fLeft = 2, fTop = 3, fRight = 9, fBottom = 60\<rparr> \<and>
   fFlags (example_crop 5) AND kHasWidth_CropEdge \<noteq> 0 \<and>
   fRight (applyTo mapRect_identity roundOut_finite (example_crop 5) example_bounds identity_matrix)
     = 11"
proof -
  note flags = kHasLeft_CropEdge_def kHasTop_CropEdge_def kHasWidth_CropEdge_def
    kHasHeight_CropEdge_def
  have f0: "fFlags (example_crop 0) = 0"
    and fF: "fFlags (example_crop 0xF) AND kHasLeft_CropEdge \<noteq> 0 \<and>
        fFlags (example_crop 0xF) AND kHasTop_CropEdge \<noteq> 0 \<and>
        fFlags (example_crop 0xF) AND kHasWidth_CropEdge \<noteq> 0 \<and>
        fFlags (example_crop 0xF) AND kHasHeight_CropEdge \<noteq> 0"
    and f4: "fFlags (example_crop 4) = kHasWidth_CropEdge"
    and f5: "fFlags (example_crop 5) AND kHasWidth_CropEdge \<noteq> 0"
      "fFlags (example_crop 5) AND kHasLeft_CropEdge \<noteq> 0"
    by (simp_all add: example_crop_def flags)
  from f0 applyTo_decomposition [of "example_crop 0" mapRect_identity roundOut_finite
      example_bounds identity_matrix]
  have a: "applyTo mapRect_identity roundOut_finite (example_crop 0) example_bounds identity_matrix
     = example_bounds"
    by blast
  from fF applyTo_decomposition [of "example_crop 0xF" mapRect_identity roundOut_finite
      example_bounds identity_matrix]
  have b: "applyTo mapRect_identity roundOut_finite (example_crop 0xF) example_bounds identity_matrix
     = \<lparr>fLeft = 4, fTop = 1, fRight = 11, fBottom = 21\<rparr>"
    unfolding example_roundOut by blast
  from f4 applyTo_decomposition [of "example_crop 4" mapRect_identity roundOut_finite
      example_bounds identity_matrix]
  have c: "applyTo mapRect_identity roundOut_finite (example_crop 4) example_bounds identity_matrix
     = \<lparr>fLeft = 2, fTop = 3, fRight = 9, fBottom = 60\<rparr>"
    unfolding example_roundOut by (simp add: example_bounds_def width_def)
  from f5 applyTo_decomposition [of "example_crop 5" mapRect_identity roundOut_finite
      example_bounds identity_matrix]
  have d: "fRight (applyTo mapRect_identity roundOut_finite (example_crop 5) example_bounds
      identity_matrix) = 11"
    unfolding example_roundOut by (simp add: width_def)
  from f0 a b f4 c f5(1) d show ?thesis
    by (intro conjI)
qed

section \<open>Properties of the edge builder\<close>

subsection \<open>Vertical fusion in the analytic builder\<close>

text \<open>
  C6.  Two vertical analytic edges at the same X with the same winding; the new edge's
  \<open>fLowerY\<close> is \<open>0x10080\<close> and the previous edge's \<open>fUpperY\<close> is \<open>0x10000\<close>: they
  differ by \<open>0x80\<close>, which \<open>approximately_equal\<close> accepts.  The source compares the two
  with \<open>==\<close>, and its second test (new \<open>fUpperY\<close> against previous \<open>fLowerY\<close>) does not
  apply: the result is \<open>kNo_Combine\<close> and the previous edge is unchanged.
\<close>

theorem combineVertical_exact_lowerY_test:
  "fWinding \<lparr>fX = 0, fDX = 0, fCurveCount = 0, fWinding = 1,
       fUpperY = 0, fLowerY = 0x10080, fY = 0\<rparr>
     = fWinding \<lparr>fX = 0, fDX = 0, fCurveCount = 0, fWinding = 1,
       fUpperY = 0x10000, fLowerY = 0x20000, fY = 0x10000\<rparr> \<and>
   approximately_equal 0x10080 0x10000 \<and>
   SkAnalyticEdgeBuilder_combineVertical
     \<lparr>fX = 0, fDX = 0, fCurveCount = 0, fWinding = 1,
       fUpperY = 0, fLowerY = 0x10080, fY = 0\<rparr>
     \<lparr>fX = 0, fDX = 0, fCurveCount = 0, fWinding = 1,
       fUpperY = 0x10000, fLowerY = 0x20000, fY = 0x10000\<rparr>
   = (kNo_Combine, \<lparr>fX = 0, fDX = 0, fCurveCount = 0, fWinding = 1,
       fUpperY = 0x10000, fLowerY = 0x20000, fY = 0x10000\<rparr>)"
  by (simp add: SkAnalyticEdgeBuilder_combineVertical_def approximately_equal_def SkAbs32_def)

text \<open>
  The same run read off: the previous edge is a vertical line at the new edge's X, so the
  function does go on to compare the Y ends, and it does not fuse.
\<close>

theorem combineVertical_exact_lowerY_test_witness:
  "fCurveCount \<lparr>fX = 0, fDX = 0, fCurveCount = 0, fWinding = 1,
       fUpperY = 0x10000, fLowerY = 0x20000, fY = 0x10000 :: SkFixed\<rparr> = 0 \<and>
   fDX \<lparr>fX = 0, fDX = 0, fCurveCount = 0, fWinding = 1,
       fUpperY = 0x10000, fLowerY = 0x20000, fY = 0x10000 :: SkFixed\<rparr> = 0 \<and>
   fst (SkAnalyticEdgeBuilder_combineVertical
     \<lparr>fX = 0, fDX = 0, fCurveCount = 0, fWinding = 1,
       fUpperY = 0, fLowerY = 0x10080, fY = 0\<rparr>
     \<lparr>fX = 0, fDX = 0, fCurveCount = 0, fWinding = 1,
       fUpperY = 0x10000, fLowerY = 0x20000, fY = 0x10000\<rparr>) = kNo_Combine"
  using combineVertical_exact_lowerY_test by simp

subsection \<open>buildPoly and the overflow of the edge count\<close>

text \<open>
  C10.  With a clip, if \<open>countPoints()\<close> (as a \<open>size_t\<close> of at least 2 bits) times
  \<open>kMaxClippedLineSegments\<close> does not fit \<open>size_t\<close>, \<open>buildPoly\<close> returns 0 and leaves the
  builder as it was: nothing is requested from \<open>fAlloc\<close>, and \<open>fEdgeList\<close> is untouched.
\<close>

theorem buildPoly_overflow_returns_zero:
  fixes st :: "('e, 'w::len word) builder_state"
  assumes "iclip \<noteq> None" and "2 \<le> LENGTH('w)"
    and "2 ^ LENGTH('w) \<le>
      unat (word_of_int (sint (countPoints path)) :: 'w word) * kMaxClippedLineSegments"
  shows "buildPoly b ext path iclip canCullToTheRight st = Inr (0, st)"
proof -
  have "(2::nat) ^ 2 \<le> 2 ^ LENGTH('w)"
    using assms(2) by (rule power_increasing) simp
  then have "unat (of_nat kMaxClippedLineSegments :: 'w word) = kMaxClippedLineSegments"
    by (simp add: kMaxClippedLineSegments_def unsigned_of_nat take_bit_nat_eq_self)
  with assms(1,3) show ?thesis
    by (simp add: buildPoly_def SkSafeMath_mul_def Let_def not_less)
qed

theorem buildPoly_overflow_returns_zero_witness:
  "Some (MakeWH 10 10) \<noteq> None \<and> 2 \<le> LENGTH(32) \<and>
   2 ^ LENGTH(32) \<le>
     unat (word_of_int (sint (countPoints huge_path)) :: 32 word) * kMaxClippedLineSegments \<and>
   buildPoly example_builder example_collaborators huge_path (Some (MakeWH 10 10)) False
     fresh_builder = Inr (0, fresh_builder)"
proof -
  have h: "Some (MakeWH 10 10) \<noteq> None" "2 \<le> LENGTH(32)"
    "2 ^ LENGTH(32) \<le>
     unat (word_of_int (sint (countPoints huge_path)) :: 32 word) * kMaxClippedLineSegments"
    by (simp_all add: huge_path_def kMaxClippedLineSegments_def)
  from buildPoly_overflow_returns_zero [OF h, of example_builder example_collaborators False
      fresh_builder] h
  show ?thesis by (intro conjI)
qed

subsection \<open>buildEdges and the count of one edge\<close>

lemma example_clip: "recoverClip example_builder (MakeWH 10 10) =
    \<lparr>rLeft = Finite 0, rTop = Finite 0, rRight = Finite 10, rBottom = Finite 10\<rparr>"
  by (simp add: example_builder_def SkBasicEdgeBuilder_def recoverClip_shifted_def MakeWH_def
      SkIntToScalar_def)

lemma notch_left_side: "ClipLine_model [pt 5 (-5), pt 5 15]
    \<lparr>rLeft = Finite 0, rTop = Finite 0, rRight = Finite 10, rBottom = Finite 10\<rparr> True
    = (1, [pt 5 0, pt 5 10])"
  by (simp add: ClipLine_model_def ClipLine_finite_def chop_in_y_def pt_def Let_def)

lemma notch_top_side: "ClipLine_model [pt 5 15, pt 15 15]
    \<lparr>rLeft = Finite 0, rTop = Finite 0, rRight = Finite 10, rBottom = Finite 10\<rparr> True
    = (0, [])"
  by (simp add: ClipLine_model_def ClipLine_finite_def chop_in_y_def pt_def Let_def)

lemma notch_upper_right_side: "ClipLine_model [pt 15 15, pt 12 5]
    \<lparr>rLeft = Finite 0, rTop = Finite 0, rRight = Finite 10, rBottom = Finite 10\<rparr> True
    = (0, [])"
  by (simp add: ClipLine_model_def ClipLine_finite_def chop_in_y_def pt_def Let_def)

lemma notch_lower_right_side: "ClipLine_model [pt 12 5, pt 15 (-5)]
    \<lparr>rLeft = Finite 0, rTop = Finite 0, rRight = Finite 10, rBottom = Finite 10\<rparr> True
    = (0, [])"
  by (simp add: ClipLine_model_def ClipLine_finite_def chop_in_y_def pt_def Let_def)

lemma notch_bottom_side: "ClipLine_model [pt 15 (-5), pt 5 (-5)]
    \<lparr>rLeft = Finite 0, rTop = Finite 0, rRight = Finite 10, rBottom = Finite 10\<rparr> True
    = (0, [])"
  by (simp add: ClipLine_model_def ClipLine_finite_def chop_in_y_def pt_def Let_def)

lemma left_side_edge: "setLine_model (pt 5 0) (pt 5 10) 0 =
    Some \<lparr>fX = 327680, fDX = 0, fCurveCount = 0, fWinding = 1, fFirstY = 0, fLastY = 9\<rparr>"
proof -
  have "\<lfloor>(1/2)::rat\<rfloor> = 0" "\<lfloor>(10 + 1/2)::rat\<rfloor> = 10" "\<lfloor>(21/2)::rat\<rfloor> = 10"
    by (simp_all add: floor_eq_iff)
  then show ?thesis
    by (simp add: setLine_model_def setLine_finite_def round_scalar_def pt_def Let_def)
qed

lemma notched_loop:
  "poly_loop example_builder example_collaborators
     (Some \<lparr>rLeft = Finite 0, rTop = Finite 0, rRight = Finite 10, rBottom = Finite 10\<rparr>) True
     (iter notched_polygon) []
   = Inr [\<lparr>fX = 327680, fDX = 0, fCurveCount = 0, fWinding = 1, fFirstY = 0, fLastY = 9\<rparr>]"
  by (simp add: notched_polygon_def example_collaborators_def notch_left_side notch_top_side
      notch_upper_right_side notch_lower_right_side notch_bottom_side poly_step_def
      example_builder_def SkBasicEdgeBuilder_def addPolyLine_combining_def left_side_edge
      is_vertical_def kMaxClippedLineSegments_def)

lemma floor_halves: "\<lfloor>(1/2)::rat\<rfloor> = 0" "\<lfloor>(21/2)::rat\<rfloor> = 10"
  by (simp_all add: floor_eq_iff)

lemma triangle_base_rejected: "setLine_model (pt 0 0) (pt 10 0) 0 = None"
  by (simp add: setLine_model_def setLine_finite_def round_scalar_def pt_def Let_def)

lemma triangle_right_edge: "setLine_model (pt 10 0) (pt 5 10) 0 =
    Some \<lparr>fX = 638976, fDX = 4294934528, fCurveCount = 0, fWinding = 1, fFirstY = 0, fLastY = 9\<rparr>"
  using floor_halves
  by (simp add: setLine_model_def setLine_finite_def round_scalar_def pt_def Let_def)

lemma triangle_left_edge: "setLine_model (pt 5 10) (pt 0 0) 0 =
    Some \<lparr>fX = 16384, fDX = 32768, fCurveCount = 0, fWinding = 255, fFirstY = 0, fLastY = 9\<rparr>"
  using floor_halves
  by (simp add: setLine_model_def setLine_finite_def round_scalar_def pt_def Let_def)

lemma triangle_loop:
  "poly_loop example_builder example_collaborators None False (iter triangle) []
   = Inr [\<lparr>fX = 638976, fDX = 4294934528, fCurveCount = 0, fWinding = 1, fFirstY = 0, fLastY = 9\<rparr>,
          \<lparr>fX = 16384, fDX = 32768, fCurveCount = 0, fWinding = 255, fFirstY = 0, fLastY = 9\<rparr>]"
  by (simp add: triangle_def poly_step_def example_builder_def SkBasicEdgeBuilder_def
      addPolyLine_combining_def triangle_base_rejected triangle_right_edge triangle_left_edge
      is_vertical_def)

text \<open>
  C1, as the code has it.  The assertion of \<open>buildEdges\<close> concerns the paths for which
  \<open>canCullToTheRight\<close> is false, that is the convex ones: when \<open>buildEdges\<close> returns for a
  convex path and a builder that chops cubics, the count is 0 or at least 2.
\<close>

theorem buildEdges_convex_count:
  assumes "buildEdges b ext path shiftedClip st = Inr (count, st')"
    and "isConvex path" and "chopCubics b"
  shows "count = 0 \<or> 2 \<le> count"
  using assms
  by (auto simp: buildEdges_def Let_def split: sum.splits if_splits prod.splits)

theorem buildEdges_convex_count_witness:
  "isConvex triangle \<and> chopCubics example_builder \<and>
   buildEdges example_builder example_collaborators triangle None fresh_builder
   = Inr (2, \<lparr>fList = [],
        fEdgeList =
          [\<lparr>fX = 638976, fDX = 4294934528, fCurveCount = 0, fWinding = 1, fFirstY = 0, fLastY = 9\<rparr>,
           \<lparr>fX = 16384, fDX = 32768, fCurveCount = 0, fWinding = 255, fFirstY = 0, fLastY = 9\<rparr>],
        fAlloc = [3, 3]\<rparr>) \<and>
   ((2::int) = 0 \<or> (2::int) \<le> 2)"
proof -
  have p: "buildPoly example_builder example_collaborators triangle None False fresh_builder
    = Inr (2, \<lparr>fList = [],
        fEdgeList =
          [\<lparr>fX = 638976, fDX = 4294934528, fCurveCount = 0, fWinding = 1, fFirstY = 0, fLastY = 9\<rparr>,
           \<lparr>fX = 16384, fDX = 32768, fCurveCount = 0, fWinding = 255, fFirstY = 0, fLastY = 9\<rparr>],
        fAlloc = [3, 3]\<rparr>)"
    unfolding buildPoly_def option.map triangle_loop
    by (simp add: triangle_def fresh_builder_def)
  have c: "isConvex triangle" "chopCubics example_builder"
    "getSegmentMasks triangle = kLine_SegmentMask"
    by (simp_all add: triangle_def example_builder_def SkBasicEdgeBuilder_def)
  with p have r: "buildEdges example_builder example_collaborators triangle None fresh_builder
    = Inr (2, \<lparr>fList = [],
        fEdgeList =
          [\<lparr>fX = 638976, fDX = 4294934528, fCurveCount = 0, fWinding = 1, fFirstY = 0, fLastY = 9\<rparr>,
           \<lparr>fX = 16384, fDX = 32768, fCurveCount = 0, fWinding = 255, fFirstY = 0, fLastY = 9\<rparr>],
        fAlloc = [3, 3]\<rparr>)"
    by (simp add: buildEdges_def)
  from buildEdges_convex_count [OF r c(1,2)] r c show ?thesis
    by (intro conjI)
qed

text \<open>
  C1 as stated fails.  A polygon that is not convex, clipped to (0,0,10,10): its left
  side crosses the clip, its horizontal sides lie above and below the clip, and the two
  sides of its notch lie to the right of the clip and are culled.  The basic builder
  (which chops cubics) returns a count of 1.
\<close>

theorem buildEdges_count_one_not_convex:
  "\<not> isConvex notched_polygon \<and> chopCubics example_builder \<and>
   buildEdges example_builder example_collaborators notched_polygon (Some (MakeWH 10 10))
     fresh_builder
   = Inr (1, \<lparr>fList = [],
        fEdgeList = [\<lparr>fX = 327680, fDX = 0, fCurveCount = 0, fWinding = 1,
                       fFirstY = 0, fLastY = 9\<rparr>],
        fAlloc = [15, 15]\<rparr>)"
proof -
  have "buildPoly example_builder example_collaborators notched_polygon (Some (MakeWH 10 10))
      True fresh_builder
    = Inr (1, \<lparr>fList = [],
        fEdgeList = [\<lparr>fX = 327680, fDX = 0, fCurveCount = 0, fWinding = 1,
                       fFirstY = 0, fLastY = 9\<rparr>],
        fAlloc = [15, 15]\<rparr>)"
    unfolding buildPoly_def example_clip option.map notched_loop
    by (simp add: notched_polygon_def SkSafeMath_mul_def kMaxClippedLineSegments_def
        fresh_builder_def)
  moreover have "\<not> isConvex notched_polygon" "chopCubics example_builder"
    "getSegmentMasks notched_polygon = kLine_SegmentMask"
    by (simp_all add: notched_polygon_def example_builder_def SkBasicEdgeBuilder_def)
  ultimately show ?thesis
    by (simp add: buildEdges_def)
qed

subsection \<open>build and non-finite segments\<close>

lemma apply_clipper_eq:
  "apply_clipper b segs edges =
     (fst (apply_clipper b (finite_prefix segs) edges), \<not> non_finite_drained segs)"
proof (induction segs arbitrary: edges)
  case Nil
  show ?case by (simp add: finite_prefix_def non_finite_drained_def)
next
  case (Cons s segs)
  obtain verb pts where s: "s = (verb, pts)" by (cases s)
  show ?case
  proof (cases "verb = kDone_Verb \<or> \<not> SkScalarsAreFinite pts (PtsInIter verb)")
    case True
    then show ?thesis
      by (auto simp: s finite_prefix_def non_finite_drained_def)
  next
    case False
    with Cons.IH show ?thesis
      unfolding s finite_prefix_def non_finite_drained_def by simp
  qed
qed

lemma clip_and_apply_snd:
  "snd (clip_and_apply b c s) = (snd s \<and> \<not> (fst c \<and> non_finite_drained (snd c)))"
  by (simp add: clip_and_apply_def apply_clipper_eq [of b "snd c" "fst s"])

lemma fold_clip_and_apply_snd:
  "snd (fold (clip_and_apply b) cs s) =
     (snd s \<and> \<not> list_ex (\<lambda>c. fst c \<and> non_finite_drained (snd c)) cs)"
  by (induction cs arbitrary: s) (auto simp: clip_and_apply_snd)

lemma fold_build_clip_verb_snd:
  "snd (fold (build_clip_verb b ext clip cull) vs s) =
     (snd s \<and> \<not> list_ex (\<lambda>v. list_ex (\<lambda>c. fst c \<and> non_finite_drained (snd c))
                                (clip_calls ext clip cull v)) vs)"
  by (induction vs arbitrary: s) (auto simp: build_clip_verb_def fold_clip_and_apply_snd)

text \<open>
  C7.  On the general path (the segment mask is not \<open>kLine_SegmentMask\<close>) with a clip: if
  for some verb of the path a clipper call returns true and one of the segments it then
  hands out (before \<open>kDone_Verb\<close>) has a non-finite coordinate, then \<open>buildEdges\<close>
  returns the count 0; and \<open>apply_clipper\<close> on that clipper stops there: it hands the
  builder the segments before the first non-finite one and none after it.  (The verbs
  that follow in the path are still clipped and drained; the count stays 0.)
\<close>

theorem build_non_finite_returns_zero:
  assumes general: "kLine_SegmentMask \<noteq> getSegmentMasks path"
    and verb: "v \<in> set (until_done (iter path))"
    and call: "c \<in> set (clip_calls ext (recoverClip b r) (\<not> isConvex path) v)"
    and drained: "fst c" "non_finite_drained (snd c)"
  shows "(\<exists>st'. buildEdges b ext path (Some r) st = Inr (0, st')) \<and>
    apply_clipper b (snd c) edges = (fst (apply_clipper b (finite_prefix (snd c)) edges), False)"
proof
  have "list_ex (\<lambda>v. list_ex (\<lambda>c. fst c \<and> non_finite_drained (snd c))
          (clip_calls ext (recoverClip b r) (\<not> isConvex path) v)) (until_done (iter path))"
    using verb call drained unfolding list_ex_iff by blast
  then have "\<not> snd (fold (build_clip_verb b ext (recoverClip b r) (\<not> isConvex path))
      (until_done (iter path)) (fList st, True))"
    by (simp add: fold_build_clip_verb_snd)
  then have "\<exists>st'. build b ext path (Some r) (\<not> isConvex path) st = Inr (0, st')"
    by (cases "fold (build_clip_verb b ext (recoverClip b r) (\<not> isConvex path))
      (until_done (iter path)) (fList st, True)") (simp add: build_def)
  with general show "\<exists>st'. buildEdges b ext path (Some r) st = Inr (0, st')"
    by (auto simp: buildEdges_def)
  from drained(2) show "apply_clipper b (snd c) edges =
      (fst (apply_clipper b (finite_prefix (snd c)) edges), False)"
    by (simp add: apply_clipper_eq [of b "snd c" edges])
qed

theorem build_non_finite_returns_zero_witness:
  "kLine_SegmentMask \<noteq> getSegmentMasks nan_quad \<and>
   (kQuad_Verb, [pt 1 1, (NaN, Finite 2), pt 3 5], Finite 1) \<in> set (until_done (iter nan_quad)) \<and>
   (True, [(kQuad_Verb, [pt 1 1, (NaN, Finite 2), pt 3 5]), (kDone_Verb, [])])
     \<in> set (clip_calls example_collaborators (recoverClip example_builder (MakeWH 10 10))
          (\<not> isConvex nan_quad) (kQuad_Verb, [pt 1 1, (NaN, Finite 2), pt 3 5], Finite 1)) \<and>
   non_finite_drained [(kQuad_Verb, [pt 1 1, (NaN, Finite 2), pt 3 5]), (kDone_Verb, [])] \<and>
   (\<exists>st'. buildEdges example_builder example_collaborators nan_quad (Some (MakeWH 10 10))
       fresh_builder = Inr (0, st'))"
proof -
  let ?v = "(kQuad_Verb, [pt 1 1, (NaN, Finite 2), pt 3 5], Finite 1)"
  let ?c = "(True, [(kQuad_Verb, [pt 1 1, (NaN, Finite 2), pt 3 5]), (kDone_Verb, [])])"
  have h1: "kLine_SegmentMask \<noteq> getSegmentMasks nan_quad"
    by (simp add: nan_quad_def kLine_SegmentMask_def)
  have h2: "?v \<in> set (until_done (iter nan_quad))"
    by (simp add: nan_quad_def until_done_def)
  have h3: "?c \<in> set (clip_calls example_collaborators (recoverClip example_builder (MakeWH 10 10))
      (\<not> isConvex nan_quad) ?v)"
    by (simp add: clip_calls_def example_collaborators_def clipQuad_inside_def)
  have h4: "fst ?c"
    by simp
  have h5: "non_finite_drained (snd ?c)"
    by (simp add: non_finite_drained_def SkScalarsAreFinite_def pt_def)
  from build_non_finite_returns_zero [OF h1 h2 h3 h4 h5, of fresh_builder "[]"]
  have "\<exists>st'. buildEdges example_builder example_collaborators nan_quad (Some (MakeWH 10 10))
       fresh_builder = Inr (0, st')"
    by (rule conjunct1)
  with h1 h2 h3 h5 show ?thesis
    by simp
qed

end
